theory Spec2Isabelle
  imports Main "HOL-Library.Word"
begin

unbundle bit_operations_syntax

section \<open>Machine types and constants\<close>

type_synonym u8 = "8 word"
type_synonym u32 = "32 word"
type_synonym u64 = "64 word"

text \<open>
  Every failure of the C code is a value: \<open>BUG\<close> is a \<^verbatim>\<open>BUG_ON()\<close>/\<^verbatim>\<open>BUG()\<close> that fires,
  \<open>DIVERGES\<close> is a loop that never leaves.
\<close>

datatype error = BUG | DIVERGES

text \<open>\<^verbatim>\<open>#define MAX_CHAIN_DEPTH 7\<close> (core.c) and \<^verbatim>\<open>#define STACK_DEPOT_EXTRA_BITS 5\<close>
  (stackdepot.h).\<close>

definition MAX_CHAIN_DEPTH :: int where
  "MAX_CHAIN_DEPTH = 7"

definition STACK_DEPOT_EXTRA_BITS :: nat where
  "STACK_DEPOT_EXTRA_BITS = 5"

text \<open>
  Modelled from the spec: the origin granule (\<^verbatim>\<open>KMSAN_ORIGIN_SIZE\<close>, declared in
  mm/kmsan/kmsan.h, which is not among the sources) is the "small power-of-two byte span,
  e.g. 4 bytes" of the data model; 4 is also \<^verbatim>\<open>sizeof(depot_stack_handle_t)\<close>, the stride
  of every origin array of the sources.
\<close>

definition KMSAN_ORIGIN_SIZE :: u64 where
  "KMSAN_ORIGIN_SIZE = 4"

text \<open>
  Modelled from the spec: \<^verbatim>\<open>PAGE_SIZE\<close> and \<^verbatim>\<open>PAGE_SHIFT\<close> come from the architecture header
  asm/page.h, which is not among the sources; the x86-64 values are used ("page-sized
  chunks").
\<close>

definition PAGE_SIZE :: u64 where
  "PAGE_SIZE = 4096"

definition PAGE_SHIFT :: nat where
  "PAGE_SHIFT = 12"

text \<open>The alignment macros of the kernel, on 64-bit values, for a power of two \<open>a\<close>.\<close>

definition ALIGN :: "u64 \<Rightarrow> u64 \<Rightarrow> u64" where
  "ALIGN x a = (x + (a - 1)) AND NOT (a - 1)"

definition ALIGN_DOWN :: "u64 \<Rightarrow> u64 \<Rightarrow> u64" where
  "ALIGN_DOWN x a = x AND NOT (a - 1)"

definition IS_ALIGNED :: "u64 \<Rightarrow> u64 \<Rightarrow> bool" where
  "IS_ALIGNED x a = (x AND (a - 1) = 0)"

text \<open>A C conversion of a 64-bit value to \<^verbatim>\<open>int\<close>: the low 32 bits, read as two's complement.\<close>

definition to_int :: "u64 \<Rightarrow> int" where
  "to_int x = sint (ucast x :: u32)"

section \<open>The environment: address-space layout, page tables, stack depot\<close>

text \<open>
  \<^verbatim>\<open>struct page\<close>, as far as KMSAN uses it: the two metadata page pointers
  (\<^verbatim>\<open>shadow_page_for\<close>, \<^verbatim>\<open>origin_page_for\<close>); 0 is \<^verbatim>\<open>NULL\<close>.
\<close>

record page =
  kmsan_shadow :: u64
  kmsan_origin :: u64

text \<open>
  Everything the sources take from headers and collaborators that are not among them is
  a parameter: the address-space constants of the architecture, the page lookup
  functions of the memory manager, the per-CPU entry area of the running CPU, the two
  dummy pages' addresses, the allocation, poisoning and slab flags, and the stack depot
  (\<open>stack_depot_save_extra\<close> as a function of the depot's state, the trace, the extra
  bits and the allocation flags, returning the handle and the new state;
  \<open>stack_depot_get_extra_bits\<close> as a function of the handle alone).
\<close>

record 'd kmsan_env =
  VMALLOC_START :: u64
  VMALLOC_END :: u64
  MODULES_VADDR :: u64
  MODULES_END :: u64
  KMSAN_VMALLOC_SHADOW_START :: u64
  KMSAN_VMALLOC_ORIGIN_START :: u64
  KMSAN_MODULES_SHADOW_START :: u64
  KMSAN_MODULES_ORIGIN_START :: u64
  CPU_ENTRY_AREA_BASE :: u64
  CPU_ENTRY_AREA_MAP_SIZE :: u64
  CPU_ENTRY_AREA_SIZE :: u64
  cpu_entry_area :: u64
  cpu_entry_area_shadow :: u64
  cpu_entry_area_origin :: u64
  START_KERNEL_map :: u64
  PAGE_OFFSET :: u64
  KERNEL_IMAGE_SIZE :: u64
  phys_base :: u64
  CONFIG_PHYS_ADDR_T_64BIT :: bool
  x86_phys_bits :: nat
  pfn_valid :: "u64 \<Rightarrow> bool"
  virt_to_page :: "u64 \<Rightarrow> u64"
  page_address :: "u64 \<Rightarrow> u64"
  dummy_load_page :: u64
  dummy_store_page :: u64
  GFP_DIRECT_RECLAIM :: u32
  GFP_ATOMIC :: u32
  GFP_KERNEL :: u32
  KMSAN_POISON_NOCHECK :: u32
  KMSAN_POISON_CHECK :: u32
  KMSAN_POISON_FREE :: u32
  SLAB_TYPESAFE_BY_RCU :: u32
  SLAB_POISON :: u32
  virt_to_head_page :: "u64 \<Rightarrow> u64"
  compound_order :: "u64 \<Rightarrow> nat"
  KMSAN_CHAIN_MAGIC_ORIGIN :: u64
  stack_depot_save_extra :: "'d \<Rightarrow> u64 list \<Rightarrow> u32 \<Rightarrow> u32 \<Rightarrow> u32 \<times> 'd"
  stack_depot_get_extra_bits :: "u32 \<Rightarrow> u32"

text \<open>
  The mutable state: the readiness flag \<^verbatim>\<open>kmsan_ready\<close>, the re-entrancy counter of the
  current context (\<^verbatim>\<open>kmsan_context.kmsan_in_runtime\<close>), the page structures, the metadata
  memory, the depot, the call stack that \<^verbatim>\<open>stack_trace_save\<close> followed by
  \<^verbatim>\<open>filter_irq_stacks\<close> would capture now, and the counter of origins that were not chained.

  Shadow memory is byte-addressed; origin memory is an array of 32-bit slots addressed
  by the slot's pointer. The sources keep shadow and origin in different pages and
  access origins only as whole \<^verbatim>\<open>depot_stack_handle_t\<close> slots, so the two are separate
  stores here.
\<close>

record 'd kmsan_state =
  kmsan_ready :: bool
  ctx_in_runtime :: int
  pages :: "u64 \<Rightarrow> page"
  shadow_mem :: "u64 \<Rightarrow> u8"
  origin_mem :: "u64 \<Rightarrow> u32"
  depot :: 'd
  cur_stack :: "u64 list"
  kmsan_skipped_origins :: u64

text \<open>
  Modelled from the spec: \<^verbatim>\<open>kmsan_in_runtime()\<close>, \<^verbatim>\<open>kmsan_enter_runtime()\<close> and
  \<^verbatim>\<open>kmsan_leave_runtime()\<close> are declared in mm/kmsan/kmsan.h, which is not among the
  sources: "a counter local to the current execution context, incremented on entry to
  any tracker bookkeeping path and decremented on exit".
\<close>

definition kmsan_in_runtime :: "'d kmsan_state \<Rightarrow> bool" where
  "kmsan_in_runtime st = (ctx_in_runtime st \<noteq> 0)"

definition kmsan_enter_runtime :: "'d kmsan_state \<Rightarrow> 'd kmsan_state" where
  "kmsan_enter_runtime st = st\<lparr>ctx_in_runtime := ctx_in_runtime st + 1\<rparr>"

definition kmsan_leave_runtime :: "'d kmsan_state \<Rightarrow> 'd kmsan_state" where
  "kmsan_leave_runtime st = st\<lparr>ctx_in_runtime := ctx_in_runtime st - 1\<rparr>"

section \<open>The metadata address resolver (shadow.c)\<close>

definition kmsan_internal_is_module_addr :: "'d kmsan_env \<Rightarrow> u64 \<Rightarrow> bool" where
  "kmsan_internal_is_module_addr E vaddr = (vaddr \<ge> MODULES_VADDR E \<and> vaddr < MODULES_END E)"

definition kmsan_internal_is_vmalloc_addr :: "'d kmsan_env \<Rightarrow> u64 \<Rightarrow> bool" where
  "kmsan_internal_is_vmalloc_addr E addr = (addr \<ge> VMALLOC_START E \<and> addr < VMALLOC_END E)"

definition shadow_ptr_for :: "'d kmsan_env \<Rightarrow> 'd kmsan_state \<Rightarrow> u64 \<Rightarrow> u64" where
  "shadow_ptr_for E st pg = page_address E (kmsan_shadow (pages st pg))"

definition origin_ptr_for :: "'d kmsan_env \<Rightarrow> 'd kmsan_state \<Rightarrow> u64 \<Rightarrow> u64" where
  "origin_ptr_for E st pg = page_address E (kmsan_origin (pages st pg))"

definition page_has_metadata :: "'d kmsan_state \<Rightarrow> u64 \<Rightarrow> bool" where
  "page_has_metadata st pg = (kmsan_shadow (pages st pg) \<noteq> 0 \<and> kmsan_origin (pages st pg) \<noteq> 0)"

definition kmsan_phys_addr_valid :: "'d kmsan_env \<Rightarrow> u64 \<Rightarrow> bool" where
  "kmsan_phys_addr_valid E addr =
     (if CONFIG_PHYS_ADDR_T_64BIT E then drop_bit (x86_phys_bits E) addr = 0 else True)"

definition kmsan_virt_addr_valid :: "'d kmsan_env \<Rightarrow> u64 \<Rightarrow> bool" where
  "kmsan_virt_addr_valid E addr =
     (let x = addr; y = x - START_KERNEL_map E in
      if x > y then
        (let x' = y + phys_base E in
         if y \<ge> KERNEL_IMAGE_SIZE E then False else pfn_valid E (drop_bit PAGE_SHIFT x'))
      else
        (let x' = y + (START_KERNEL_map E - PAGE_OFFSET E) in
         if x' > y \<or> \<not> kmsan_phys_addr_valid E x' then False
         else pfn_valid E (drop_bit PAGE_SHIFT x')))"

text \<open>\<^verbatim>\<open>vmalloc_meta\<close>: the only function of the resolver with an assertion.\<close>

definition vmalloc_meta :: "'d kmsan_env \<Rightarrow> u64 \<Rightarrow> bool \<Rightarrow> error + u64" where
  "vmalloc_meta E addr64 is_origin =
     (if is_origin \<and> \<not> IS_ALIGNED addr64 KMSAN_ORIGIN_SIZE then Inl BUG
      else if kmsan_internal_is_vmalloc_addr E addr64 then
        Inr ((addr64 - VMALLOC_START E) +
             (if is_origin then KMSAN_VMALLOC_ORIGIN_START E else KMSAN_VMALLOC_SHADOW_START E))
      else if kmsan_internal_is_module_addr E addr64 then
        Inr ((addr64 - MODULES_VADDR E) +
             (if is_origin then KMSAN_MODULES_ORIGIN_START E else KMSAN_MODULES_SHADOW_START E))
      else Inr 0)"

text \<open>\<^verbatim>\<open>get_cea_meta_or_null\<close>: \<^verbatim>\<open>off\<close> is an \<^verbatim>\<open>int\<close>, the pointer difference truncated.\<close>

definition get_cea_meta_or_null :: "'d kmsan_env \<Rightarrow> u64 \<Rightarrow> bool \<Rightarrow> u64" where
  "get_cea_meta_or_null E addr is_origin =
     (if addr < CPU_ENTRY_AREA_BASE E \<or>
         addr \<ge> CPU_ENTRY_AREA_BASE E + CPU_ENTRY_AREA_MAP_SIZE E then 0
      else
        (let off = to_int (addr - cpu_entry_area E) in
         if off < 0 \<or> off \<ge> uint (CPU_ENTRY_AREA_SIZE E) then 0
         else (if is_origin then cpu_entry_area_origin E else cpu_entry_area_shadow E)
              + word_of_int off))"

definition virt_to_page_or_null :: "'d kmsan_env \<Rightarrow> u64 \<Rightarrow> u64" where
  "virt_to_page_or_null E vaddr =
     (if kmsan_virt_addr_valid E vaddr then virt_to_page E vaddr else 0)"

text \<open>
  \<^verbatim>\<open>kmsan_get_metadata(address, is_origin)\<close>: the shadow or origin pointer of an address,
  0 (\<^verbatim>\<open>NULL\<close>) if there is none. It reads neither \<^verbatim>\<open>kmsan_ready\<close> nor the re-entrancy
  counter.
\<close>

definition kmsan_get_metadata ::
  "'d kmsan_env \<Rightarrow> 'd kmsan_state \<Rightarrow> u64 \<Rightarrow> bool \<Rightarrow> error + u64" where
  "kmsan_get_metadata E st address is_origin =
     (let addr = (if is_origin \<and> \<not> IS_ALIGNED address KMSAN_ORIGIN_SIZE
                  then address - (address mod KMSAN_ORIGIN_SIZE) else address) in
      if kmsan_internal_is_vmalloc_addr E addr \<or> kmsan_internal_is_module_addr E addr
      then vmalloc_meta E addr is_origin
      else
        (let ret = get_cea_meta_or_null E addr is_origin in
         if ret \<noteq> 0 then Inr ret
         else
           (let pg = virt_to_page_or_null E addr in
            if pg = 0 then Inr 0
            else if \<not> page_has_metadata st pg then Inr 0
            else
              (let off = addr mod PAGE_SIZE in
               Inr ((if is_origin then origin_ptr_for E st pg else shadow_ptr_for E st pg)
                    + off)))))"

section \<open>Metadata memory primitives\<close>

text \<open>
  \<^verbatim>\<open>__memset(s, c, n)\<close> and \<^verbatim>\<open>__memmove(d, s, n)\<close> on the shadow memory. \<open>p - s < n\<close> holds
  exactly for the \<open>n\<close> addresses \<open>s, s + 1, \<dots>\<close> (modulo \<open>2 ^ 64\<close>); \<open>memmove\<close> reads the old
  memory, as a copy through a temporary buffer does.
\<close>

definition memset :: "(u64 \<Rightarrow> u8) \<Rightarrow> u64 \<Rightarrow> u8 \<Rightarrow> u64 \<Rightarrow> (u64 \<Rightarrow> u8)" where
  "memset m s c n = (\<lambda>p. if p - s < n then c else m p)"

definition memmove :: "(u64 \<Rightarrow> u8) \<Rightarrow> u64 \<Rightarrow> u64 \<Rightarrow> u64 \<Rightarrow> (u64 \<Rightarrow> u8)" where
  "memmove m d s n = (\<lambda>p. if p - d < n then m (s + (p - d)) else m p)"

text \<open>A 32-bit load from byte memory, little-endian (x86): \<^verbatim>\<open>align_shadow_src[i]\<close>.\<close>

definition load_u32 :: "(u64 \<Rightarrow> u8) \<Rightarrow> u64 \<Rightarrow> u32" where
  "load_u32 m p =
     ucast (m p) OR push_bit 8 (ucast (m (p + 1))) OR
     push_bit 16 (ucast (m (p + 2))) OR push_bit 24 (ucast (m (p + 3)))"

section \<open>The contiguity gate (core.c)\<close>

text \<open>
  The page loop of \<^verbatim>\<open>kmsan_metadata_is_contiguous\<close>. \<open>lim\<close> is \<^verbatim>\<open>(u64)addr + size\<close>. The loop
  variable wraps around at \<open>2 ^ 64\<close>, so the loop need not end: it is a partial function.
\<close>

partial_function (option) contiguous_loop ::
  "'d kmsan_env \<Rightarrow> 'd kmsan_state \<Rightarrow> u64 \<Rightarrow> bool \<Rightarrow> u64 \<Rightarrow> u64 \<Rightarrow> u64 \<Rightarrow> (error + bool) option"
where
  "contiguous_loop E st lim all_untracked next_addr cur_shadow cur_origin =
     (if next_addr < lim then
        (let rs = kmsan_get_metadata E st next_addr False;
             ro = kmsan_get_metadata E st next_addr True in
         if isl rs then Some (Inl (projl rs))
         else if isl ro then Some (Inl (projl ro))
         else
           (let next_shadow = projr rs; next_origin = projr ro in
            if all_untracked \<and> (next_shadow \<noteq> 0 \<or> next_origin \<noteq> 0) then Some (Inr False)
            else if all_untracked \<and> next_shadow = 0 \<and> next_origin = 0 then
              contiguous_loop E st lim all_untracked (next_addr + PAGE_SIZE)
                next_shadow next_origin
            else if cur_shadow = next_shadow - PAGE_SIZE \<and> cur_origin = next_origin - PAGE_SIZE
            then
              contiguous_loop E st lim all_untracked (next_addr + PAGE_SIZE)
                next_shadow next_origin
            else Some (Inr False)))
      else Some (Inr True))"

declare contiguous_loop.simps [code]

definition kmsan_metadata_is_contiguous ::
  "'d kmsan_env \<Rightarrow> 'd kmsan_state \<Rightarrow> u64 \<Rightarrow> u64 \<Rightarrow> error + bool" where
  "kmsan_metadata_is_contiguous E st addr sz =
     (if sz = 0 then Inr True
      else if ALIGN_DOWN (addr + sz - 1) PAGE_SIZE = ALIGN_DOWN addr PAGE_SIZE then Inr True
      else
        (case kmsan_get_metadata E st addr False of
           Inl e \<Rightarrow> Inl e
         | Inr cur_shadow \<Rightarrow>
             (case kmsan_get_metadata E st addr True of
                Inl e \<Rightarrow> Inl e
              | Inr cur_origin \<Rightarrow>
                  (let all_untracked = (cur_shadow = 0) in
                   if all_untracked \<and> cur_origin \<noteq> 0 then Inr False
                   else
                     (case contiguous_loop E st (addr + sz) all_untracked
                             (addr + PAGE_SIZE) cur_shadow cur_origin of
                        None \<Rightarrow> Inl DIVERGES
                      | Some r \<Rightarrow> r)))))"

section \<open>The poison primitive (core.c)\<close>

text \<open>
  The origin loop of \<^verbatim>\<open>kmsan_internal_set_shadow_origin\<close>:
  \<^verbatim>\<open>for (i = 0; i < size / KMSAN_ORIGIN_SIZE; i++) origin_start[i] = origin;\<close>
\<close>

function set_origins :: "(u64 \<Rightarrow> u32) \<Rightarrow> u64 \<Rightarrow> u32 \<Rightarrow> nat \<Rightarrow> nat \<Rightarrow> (u64 \<Rightarrow> u32)" where
  "set_origins om origin_start origin n i =
     (if i < n then set_origins (om(origin_start + 4 * word_of_nat i := origin))
                      origin_start origin n (i + 1)
      else om)"
  by pat_completeness auto
termination
  by (relation "measure (\<lambda>(om, origin_start, origin, n, i). n - i)") auto

declare set_origins.simps [simp del]

text \<open>
  \<^verbatim>\<open>kmsan_internal_set_shadow_origin(addr, size, b, origin, checked)\<close>. The fill byte \<open>b\<close> is
  an \<^verbatim>\<open>int\<close> that \<^verbatim>\<open>__memset\<close> converts to a byte.
\<close>

definition kmsan_internal_set_shadow_origin ::
  "'d kmsan_env \<Rightarrow> 'd kmsan_state \<Rightarrow> u64 \<Rightarrow> u64 \<Rightarrow> int \<Rightarrow> u32 \<Rightarrow> bool
     \<Rightarrow> error + 'd kmsan_state" where
  "kmsan_internal_set_shadow_origin E st addr sz b origin checked =
     (case kmsan_metadata_is_contiguous E st addr sz of
        Inl e \<Rightarrow> Inl e
      | Inr False \<Rightarrow> Inl BUG
      | Inr True \<Rightarrow>
          (case kmsan_get_metadata E st addr False of
             Inl e \<Rightarrow> Inl e
           | Inr shadow_start \<Rightarrow>
               if shadow_start = 0 then (if checked then Inl BUG else Inr st)
               else
                 (let sm = memset (shadow_mem st) shadow_start (word_of_int b) sz;
                      pad = (if \<not> IS_ALIGNED addr KMSAN_ORIGIN_SIZE
                             then addr mod KMSAN_ORIGIN_SIZE else 0);
                      address = addr - pad;
                      asize = ALIGN (sz + pad) KMSAN_ORIGIN_SIZE in
                  case kmsan_get_metadata E st address True of
                    Inl e \<Rightarrow> Inl e
                  | Inr origin_start \<Rightarrow>
                      if origin_start = 0 then Inl BUG
                      else Inr (st\<lparr>shadow_mem := sm,
                                   origin_mem := set_origins (origin_mem st) origin_start origin
                                     (unat (asize div KMSAN_ORIGIN_SIZE)) 0\<rparr>))))"

section \<open>The provenance chain manager (core.c)\<close>

text \<open>
  Modelled from the spec: \<^verbatim>\<open>kmsan_extra_bits\<close>, \<^verbatim>\<open>kmsan_depth_from_eb\<close> and
  \<^verbatim>\<open>kmsan_uaf_from_eb\<close> are declared in mm/kmsan/kmsan.h, which is not among the sources.
  They pack "depth and the use-after-free flag" into the handle's side-channel bits; the
  assertion of \<^verbatim>\<open>kmsan_internal_chain_origin\<close>, that \<^verbatim>\<open>1 << STACK_DEPOT_EXTRA_BITS\<close> exceeds
  \<^verbatim>\<open>MAX_CHAIN_DEPTH << 1\<close>, fixes the layout: the flag is bit 0, the depth stands above it.
\<close>

definition kmsan_extra_bits :: "u32 \<Rightarrow> bool \<Rightarrow> u32" where
  "kmsan_extra_bits depth uaf = push_bit 1 depth OR (if uaf then 1 else 0)"

definition kmsan_uaf_from_eb :: "u32 \<Rightarrow> bool" where
  "kmsan_uaf_from_eb extra_bits = (extra_bits AND 1 \<noteq> 0)"

definition kmsan_depth_from_eb :: "u32 \<Rightarrow> u32" where
  "kmsan_depth_from_eb extra_bits = drop_bit 1 extra_bits"

text \<open>
  \<^verbatim>\<open>kmsan_save_stack_with_flags(flags, reserved)\<close>: the current stack goes to the depot,
  without \<^verbatim>\<open>__GFP_DIRECT_RECLAIM\<close>.
\<close>

definition kmsan_save_stack_with_flags ::
  "'d kmsan_env \<Rightarrow> 'd kmsan_state \<Rightarrow> u32 \<Rightarrow> u32 \<Rightarrow> u32 \<times> 'd kmsan_state" where
  "kmsan_save_stack_with_flags E st flags reserved =
     (let (handle, d) = stack_depot_save_extra E (depot st) (cur_stack st) reserved
                          (flags AND NOT (GFP_DIRECT_RECLAIM E))
      in (handle, st\<lparr>depot := d\<rparr>))"

text \<open>
  \<^verbatim>\<open>kmsan_internal_chain_origin(id)\<close>. \<^verbatim>\<open>depth\<close> is an \<^verbatim>\<open>int\<close>. The warning printed at every
  10000th skipped origin writes to the console only and is not part of the state.
\<close>

definition kmsan_internal_chain_origin ::
  "'d kmsan_env \<Rightarrow> 'd kmsan_state \<Rightarrow> u32 \<Rightarrow> u32 \<times> 'd kmsan_state" where
  "kmsan_internal_chain_origin E st id' =
     (if id' = 0 then (id', st)
      else
        (let extra_bits = stack_depot_get_extra_bits E id';
             depth = sint (kmsan_depth_from_eb extra_bits);
             uaf = kmsan_uaf_from_eb extra_bits in
         if depth \<ge> MAX_CHAIN_DEPTH then
           (id', st\<lparr>kmsan_skipped_origins := kmsan_skipped_origins st + 1\<rparr>)
         else
           (let extra_bits' = kmsan_extra_bits (word_of_int (depth + 1)) uaf;
                (h1, st1) = kmsan_save_stack_with_flags E st (GFP_ATOMIC E) extra_bits';
                entries = [KMSAN_CHAIN_MAGIC_ORIGIN E, ucast h1, ucast id'];
                (h2, d2) = stack_depot_save_extra E (depot st1) entries extra_bits'
                             (GFP_ATOMIC E)
            in (h2, st1\<lparr>depot := d2\<rparr>))))"

definition kmsan_internal_poison_memory ::
  "'d kmsan_env \<Rightarrow> 'd kmsan_state \<Rightarrow> u64 \<Rightarrow> u64 \<Rightarrow> u32 \<Rightarrow> u32 \<Rightarrow> error + 'd kmsan_state" where
  "kmsan_internal_poison_memory E st address sz flags poison_flags =
     (let extra_bits = kmsan_extra_bits 0 (poison_flags AND KMSAN_POISON_FREE E \<noteq> 0);
          checked = (poison_flags AND KMSAN_POISON_CHECK E \<noteq> 0);
          (handle, st1) = kmsan_save_stack_with_flags E st flags extra_bits
      in kmsan_internal_set_shadow_origin E st1 address sz (- 1) handle checked)"

definition kmsan_internal_unpoison_memory ::
  "'d kmsan_env \<Rightarrow> 'd kmsan_state \<Rightarrow> u64 \<Rightarrow> u64 \<Rightarrow> bool \<Rightarrow> error + 'd kmsan_state" where
  "kmsan_internal_unpoison_memory E st address sz checked =
     kmsan_internal_set_shadow_origin E st address sz 0 0 checked"

section \<open>The poison scanner (core.c)\<close>

text \<open>
  A call of \<^verbatim>\<open>kmsan_report(origin, address, size, off_first, off_last, user_addr, reason)\<close>.
  The reporter itself (report.c) is not among the sources; the scanner's output is the
  sequence of its calls. \<^verbatim>\<open>kmsan_enter_runtime()\<close> and \<^verbatim>\<open>kmsan_leave_runtime()\<close> bracket each
  call and leave the re-entrancy counter as it was.
\<close>

record report =
  rep_origin :: u32
  rep_address :: u64
  rep_size :: u64
  rep_off_first :: int
  rep_off_last :: int
  rep_user_addr :: u64
  rep_reason :: int

text \<open>The scanner's variables: \<^verbatim>\<open>cur_origin\<close>, \<^verbatim>\<open>cur_off_start\<close> (an \<^verbatim>\<open>int\<close>), and the reports
  emitted so far, oldest first.\<close>

record scan =
  cur_origin :: u32
  cur_off_start :: int
  emitted :: "report list"

text \<open>
  \<^verbatim>\<open>if (cur_origin) kmsan_report(cur_origin, addr, size, cur_off_start, off_last, \<dots>);\<close>
  \<close>

definition report_run :: "u64 \<Rightarrow> u64 \<Rightarrow> u64 \<Rightarrow> int \<Rightarrow> u64 \<Rightarrow> scan \<Rightarrow> scan" where
  "report_run addr sz user_addr reason off_last s =
     (if cur_origin s \<noteq> 0 then
        s\<lparr>emitted := emitted s @
             [\<lparr>rep_origin = cur_origin s, rep_address = addr, rep_size = sz,
               rep_off_first = cur_off_start s, rep_off_last = to_int off_last,
               rep_user_addr = user_addr, rep_reason = reason\<rparr>]\<rparr>
      else s)"

text \<open>The byte loop over one chunk: \<^verbatim>\<open>for (i = 0; i < chunk_size; i++)\<close>.\<close>

function check_chunk ::
  "'d kmsan_env \<Rightarrow> 'd kmsan_state \<Rightarrow> u64 \<Rightarrow> u64 \<Rightarrow> u64 \<Rightarrow> int \<Rightarrow> u64 \<Rightarrow> u64 \<Rightarrow> nat \<Rightarrow> nat
     \<Rightarrow> scan \<Rightarrow> error + scan" where
  "check_chunk E st addr sz user_addr reason pos shadow chunk_size i s =
     (if i < chunk_size then
        if shadow_mem st (shadow + word_of_nat i) = 0 then
          check_chunk E st addr sz user_addr reason pos shadow chunk_size (i + 1)
            ((report_run addr sz user_addr reason (pos + word_of_nat i - 1) s)
               \<lparr>cur_origin := 0, cur_off_start := - 1\<rparr>)
        else
          (case kmsan_get_metadata E st (addr + pos + word_of_nat i) True of
             Inl e \<Rightarrow> Inl e
           | Inr origin \<Rightarrow>
               if origin = 0 then Inl BUG
               else
                 (let new_origin = origin_mem st origin in
                  if cur_origin s \<noteq> new_origin then
                    check_chunk E st addr sz user_addr reason pos shadow chunk_size (i + 1)
                      ((report_run addr sz user_addr reason (pos + word_of_nat i - 1) s)
                         \<lparr>cur_origin := new_origin,
                          cur_off_start := to_int (pos + word_of_nat i)\<rparr>)
                  else
                    check_chunk E st addr sz user_addr reason pos shadow chunk_size (i + 1) s))
      else Inr s)"
  by pat_completeness auto
termination
  by (relation "measure (\<lambda>(E, st, addr, sz, user_addr, reason, pos, shadow, chunk_size, i, s).
        chunk_size - i)") auto

declare check_chunk.simps [simp del]

text \<open>\<^verbatim>\<open>chunk_size = min(size - pos, PAGE_SIZE - ((addr64 + pos) % PAGE_SIZE))\<close>, an \<^verbatim>\<open>int\<close>
  between 1 and \<open>PAGE_SIZE\<close> while \<open>pos < size\<close>.\<close>

definition chunk_size_at :: "u64 \<Rightarrow> u64 \<Rightarrow> u64 \<Rightarrow> u64" where
  "chunk_size_at addr sz pos = min (sz - pos) (PAGE_SIZE - ((addr + pos) mod PAGE_SIZE))"

lemma chunk_size_at_bounds:
  assumes "pos < sz"
  shows "0 < chunk_size_at addr sz pos" and "chunk_size_at addr sz pos \<le> sz - pos"
    and "chunk_size_at addr sz pos \<le> PAGE_SIZE"
proof -
  have m: "(addr + pos) mod PAGE_SIZE < PAGE_SIZE"
    by (simp add: PAGE_SIZE_def word_mod_less_divisor)
  then have p: "0 < PAGE_SIZE - (addr + pos) mod PAGE_SIZE"
    by (simp add: word_neq_0_conv [symmetric])
  have d: "0 < sz - pos"
    using assms by (simp add: word_neq_0_conv [symmetric])
  show "0 < chunk_size_at addr sz pos"
    using p d by (simp add: chunk_size_at_def min_def)
  show "chunk_size_at addr sz pos \<le> sz - pos"
    by (simp add: chunk_size_at_def)
  have "PAGE_SIZE - (addr + pos) mod PAGE_SIZE \<le> PAGE_SIZE"
    using m by (simp add: word_sub_le)
  moreover have "chunk_size_at addr sz pos \<le> PAGE_SIZE - (addr + pos) mod PAGE_SIZE"
    by (simp add: chunk_size_at_def)
  ultimately show "chunk_size_at addr sz pos \<le> PAGE_SIZE"
    by (rule order_trans [rotated])
qed

lemma check_pages_decreases:
  assumes "pos < sz"
  shows "unat (sz - (pos + chunk_size_at addr sz pos)) < unat (sz - pos)"
proof -
  let ?c = "chunk_size_at addr sz pos"
  have le: "unat ?c \<le> unat (sz - pos)"
    using chunk_size_at_bounds(2) [OF assms] by (simp add: word_le_nat_alt)
  have pos: "0 < unat ?c"
    using chunk_size_at_bounds(1) [OF assms] by (simp add: unat_gt_0 word_neq_0_conv)
  have "sz - (pos + ?c) = (sz - pos) - ?c"
    by (simp add: diff_diff_add)
  then have "unat (sz - (pos + ?c)) = unat ((sz - pos) - ?c)"
    by (rule arg_cong)
  also have "\<dots> = unat (sz - pos) - unat ?c"
    using chunk_size_at_bounds(2) [OF assms] by (simp add: unat_sub)
  also have "\<dots> < unat (sz - pos)"
    using le pos by arith
  finally show ?thesis .
qed

text \<open>The page loop: \<^verbatim>\<open>while (pos < size)\<close>.\<close>

function check_pages ::
  "'d kmsan_env \<Rightarrow> 'd kmsan_state \<Rightarrow> u64 \<Rightarrow> u64 \<Rightarrow> u64 \<Rightarrow> int \<Rightarrow> u64 \<Rightarrow> scan
     \<Rightarrow> error + scan" where
  "check_pages E st addr sz user_addr reason pos s =
     (if pos < sz then
        (let chunk_size = chunk_size_at addr sz pos in
         case kmsan_get_metadata E st (addr + pos) False of
           Inl e \<Rightarrow> Inl e
         | Inr shadow \<Rightarrow>
             if shadow = 0 then
               check_pages E st addr sz user_addr reason (pos + chunk_size)
                 ((report_run addr sz user_addr reason (pos - 1) s)
                    \<lparr>cur_origin := 0, cur_off_start := - 1\<rparr>)
             else
               (case check_chunk E st addr sz user_addr reason pos shadow (unat chunk_size) 0 s of
                  Inl e \<Rightarrow> Inl e
                | Inr s' \<Rightarrow> check_pages E st addr sz user_addr reason (pos + chunk_size) s'))
      else if pos \<noteq> sz then Inl BUG
      else Inr (report_run addr sz user_addr reason (pos - 1) s))"
  by pat_completeness auto
termination
  by (relation "measure (\<lambda>(E, st, addr, sz, user_addr, reason, pos, s). unat (sz - pos))")
     (auto simp: check_pages_decreases)

declare check_pages.simps [simp del]

text \<open>\<^verbatim>\<open>kmsan_internal_check_memory(addr, size, user_addr, reason)\<close>: the reports it emits.\<close>

definition kmsan_internal_check_memory ::
  "'d kmsan_env \<Rightarrow> 'd kmsan_state \<Rightarrow> u64 \<Rightarrow> u64 \<Rightarrow> u64 \<Rightarrow> int \<Rightarrow> error + report list" where
  "kmsan_internal_check_memory E st addr sz user_addr reason =
     (if sz = 0 then Inr []
      else
        (case kmsan_metadata_is_contiguous E st addr sz of
           Inl e \<Rightarrow> Inl e
         | Inr False \<Rightarrow> Inl BUG
         | Inr True \<Rightarrow>
             (case check_pages E st addr sz user_addr reason 0
                     \<lparr>cur_origin = 0, cur_off_start = - 1, emitted = []\<rparr> of
                Inl e \<Rightarrow> Inl e
              | Inr s \<Rightarrow> Inr (emitted s))))"

section \<open>The metadata propagation engine (core.c)\<close>

text \<open>
  The variables of the origin loop of \<^verbatim>\<open>kmsan_memmove_metadata\<close> that live across
  iterations: \<^verbatim>\<open>old_origin\<close>, \<^verbatim>\<open>new_origin\<close> and the state (origin memory, depot).
\<close>

record 'd mm_loop =
  old_origin :: u32
  new_origin :: u32
  mm_state :: "'d kmsan_state"

text \<open>
  The shadow word the loop looks at for slot \<open>i\<close>: \<^verbatim>\<open>align_shadow_src[i]\<close>, with the two
  edge masks. Shifts are on \<^verbatim>\<open>u32\<close>.
\<close>

definition slot_shadow :: "(u64 \<Rightarrow> u8) \<Rightarrow> u64 \<Rightarrow> u64 \<Rightarrow> u64 \<Rightarrow> int \<Rightarrow> int \<Rightarrow> u32" where
  "slot_shadow sm align_shadow_src src n src_slots i =
     (let shadow = load_u32 sm (align_shadow_src + word_of_int (4 * i));
          shadow1 = (if i = 0 then
                       (let skip_bits = unat ((src mod KMSAN_ORIGIN_SIZE) * 8)
                        in drop_bit skip_bits (push_bit skip_bits shadow))
                     else shadow);
          shadow2 = (if i = src_slots - 1 then
                       (let skip_bits = unat (((src + n) mod KMSAN_ORIGIN_SIZE) * 8)
                        in push_bit skip_bits (drop_bit skip_bits shadow1))
                     else shadow1)
      in shadow2)"

text \<open>One iteration of the origin loop, for slot \<open>i\<close>.\<close>

definition memmove_origin_step ::
  "'d kmsan_env \<Rightarrow> u64 \<Rightarrow> u64 \<Rightarrow> int \<Rightarrow> u64 \<Rightarrow> u64 \<Rightarrow> u64 \<Rightarrow> int \<Rightarrow> 'd mm_loop
     \<Rightarrow> error + 'd mm_loop" where
  "memmove_origin_step E src n src_slots align_shadow_src origin_src origin_dst i l =
     (if i < 0 then Inl BUG
      else
        (let st = mm_state l;
             shadow = slot_shadow (shadow_mem st) align_shadow_src src n src_slots i;
             src_origin = origin_mem st (origin_src + word_of_int (4 * i));
             l1 = (if src_origin \<noteq> 0 \<and> src_origin \<noteq> old_origin l \<and> shadow \<noteq> 0 then
                     (let (chain_origin, st1) = kmsan_internal_chain_origin E st src_origin
                      in \<lparr>old_origin = src_origin,
                          new_origin = (if chain_origin \<noteq> 0 then chain_origin else src_origin),
                          mm_state = st1\<rparr>)
                   else l);
             st2 = mm_state l1
         in Inr (l1\<lparr>mm_state := st2\<lparr>origin_mem := (origin_mem st2)
                   (origin_dst + word_of_int (4 * i) :=
                      (if shadow \<noteq> 0 then new_origin l1 else 0))\<rparr>\<rparr>)))"

text \<open>
  The loop: \<^verbatim>\<open>for (step = 0; step < min(src_slots, dst_slots); step++, i += iter)\<close>.
\<close>

function memmove_origin_loop ::
  "'d kmsan_env \<Rightarrow> u64 \<Rightarrow> u64 \<Rightarrow> int \<Rightarrow> u64 \<Rightarrow> u64 \<Rightarrow> u64 \<Rightarrow> int \<Rightarrow> int \<Rightarrow> int \<Rightarrow> int
     \<Rightarrow> 'd mm_loop \<Rightarrow> error + 'd mm_loop" where
  "memmove_origin_loop E src n src_slots align_shadow_src origin_src origin_dst slots iter
       step i l =
     (if step < slots then
        (case memmove_origin_step E src n src_slots align_shadow_src origin_src origin_dst i l of
           Inl e \<Rightarrow> Inl e
         | Inr l' \<Rightarrow>
             memmove_origin_loop E src n src_slots align_shadow_src origin_src origin_dst
               slots iter (step + 1) (i + iter) l')
      else Inr l)"
  by pat_completeness auto
termination
  by (relation "measure (\<lambda>(E, src, n, src_slots, align_shadow_src, origin_src, origin_dst,
        slots, iter, step, i, l). nat (slots - step))") auto

declare memmove_origin_loop.simps [simp del]

text \<open>
  \<^verbatim>\<open>src_slots\<close> and \<^verbatim>\<open>dst_slots\<close>: the number of origin slots a range touches, an \<^verbatim>\<open>int\<close>.
\<close>

definition origin_slots :: "u64 \<Rightarrow> u64 \<Rightarrow> int" where
  "origin_slots p n =
     to_int ((ALIGN (p + n) KMSAN_ORIGIN_SIZE - ALIGN_DOWN p KMSAN_ORIGIN_SIZE)
             div KMSAN_ORIGIN_SIZE)"

text \<open>\<^verbatim>\<open>kmsan_memmove_metadata(dst, src, n)\<close>.\<close>

definition kmsan_memmove_metadata ::
  "'d kmsan_env \<Rightarrow> 'd kmsan_state \<Rightarrow> u64 \<Rightarrow> u64 \<Rightarrow> u64 \<Rightarrow> error + 'd kmsan_state" where
  "kmsan_memmove_metadata E st dst src n =
     (case kmsan_get_metadata E st dst False of
        Inl e \<Rightarrow> Inl e
      | Inr shadow_dst \<Rightarrow>
          if shadow_dst = 0 then Inr st
          else
            (case kmsan_metadata_is_contiguous E st dst n of
               Inl e \<Rightarrow> Inl e
             | Inr False \<Rightarrow> Inl BUG
             | Inr True \<Rightarrow>
                 (case kmsan_get_metadata E st src False of
                    Inl e \<Rightarrow> Inl e
                  | Inr shadow_src \<Rightarrow>
                      if shadow_src = 0 then
                        Inr (st\<lparr>shadow_mem := memset (shadow_mem st) shadow_dst 0 n\<rparr>)
                      else
                        (case kmsan_metadata_is_contiguous E st src n of
                           Inl e \<Rightarrow> Inl e
                         | Inr False \<Rightarrow> Inl BUG
                         | Inr True \<Rightarrow>
                             (let st1 = st\<lparr>shadow_mem :=
                                    memmove (shadow_mem st) shadow_dst shadow_src n\<rparr> in
                              case kmsan_get_metadata E st1 dst True of
                                Inl e \<Rightarrow> Inl e
                              | Inr origin_dst \<Rightarrow>
                                  (case kmsan_get_metadata E st1 src True of
                                     Inl e \<Rightarrow> Inl e
                                   | Inr origin_src \<Rightarrow>
                                       if origin_dst = 0 \<or> origin_src = 0 then Inl BUG
                                       else
                                         (let src_slots = origin_slots src n;
                                              dst_slots = origin_slots dst n in
                                          if src_slots = 0 \<or> dst_slots = 0 then Inl BUG
                                          else if src_slots < 1 \<or> dst_slots < 1 then Inl BUG
                                          else if src_slots - dst_slots > 1 \<or>
                                                  dst_slots - src_slots < - 1 then Inl BUG
                                          else
                                            (let backwards = (dst > src);
                                                 slots = min src_slots dst_slots;
                                                 i = (if backwards then slots - 1 else 0);
                                                 iter = (if backwards then - 1 else 1);
                                                 align_shadow_src =
                                                   ALIGN_DOWN shadow_src KMSAN_ORIGIN_SIZE
                                             in
                                             case memmove_origin_loop E src n src_slots
                                                    align_shadow_src origin_src origin_dst
                                                    slots iter 0 i
                                                    \<lparr>old_origin = 0, new_origin = 0,
                                                     mm_state = st1\<rparr> of
                                               Inl e \<Rightarrow> Inl e
                                             | Inr l \<Rightarrow> Inr (mm_state l)))))))))"

section \<open>The access layer (shadow.c)\<close>

text \<open>\<^verbatim>\<open>struct shadow_origin_ptr\<close>.\<close>

record shadow_origin_ptr =
  shadow :: u64
  origin :: u64

text \<open>\<^verbatim>\<open>kmsan_get_shadow_origin_ptr(address, size, store)\<close>.\<close>

definition kmsan_get_shadow_origin_ptr ::
  "'d kmsan_env \<Rightarrow> 'd kmsan_state \<Rightarrow> u64 \<Rightarrow> u64 \<Rightarrow> bool \<Rightarrow> error + shadow_origin_ptr" where
  "kmsan_get_shadow_origin_ptr E st address sz store =
     (let return_dummy =
            (if store then \<lparr>shadow = dummy_store_page E, origin = dummy_store_page E\<rparr>
             else \<lparr>shadow = dummy_load_page E, origin = dummy_load_page E\<rparr>) in
      if sz > PAGE_SIZE then Inl BUG
      else if \<not> kmsan_ready st \<or> kmsan_in_runtime st then Inr return_dummy
      else
        (case kmsan_metadata_is_contiguous E st address sz of
           Inl e \<Rightarrow> Inl e
         | Inr False \<Rightarrow> Inl BUG
         | Inr True \<Rightarrow>
             (case kmsan_get_metadata E st address False of
                Inl e \<Rightarrow> Inl e
              | Inr shadow_p \<Rightarrow>
                  if shadow_p = 0 then Inr return_dummy
                  else
                    (case kmsan_get_metadata E st address True of
                       Inl e \<Rightarrow> Inl e
                     | Inr origin_p \<Rightarrow> Inr \<lparr>shadow = shadow_p, origin = origin_p\<rparr>))))"

section \<open>The free hooks (hooks.c, shadow.c)\<close>

text \<open>\<^verbatim>\<open>struct kmem_cache\<close>, as far as the hooks read it; a \<^verbatim>\<open>ctor\<close> of 0 is \<^verbatim>\<open>NULL\<close>.\<close>

record kmem_cache =
  ctor :: u64
  flags :: u32
  object_size :: u32

text \<open>\<^verbatim>\<open>kmsan_free_page(page, order)\<close> returns at once.\<close>

definition kmsan_free_page :: "'d kmsan_env \<Rightarrow> 'd kmsan_state \<Rightarrow> u64 \<Rightarrow> nat \<Rightarrow> error + 'd kmsan_state" where
  "kmsan_free_page E st pg order = Inr st"

text \<open>\<^verbatim>\<open>kmsan_slab_free(s, object)\<close>.\<close>

definition kmsan_slab_free ::
  "'d kmsan_env \<Rightarrow> 'd kmsan_state \<Rightarrow> kmem_cache \<Rightarrow> u64 \<Rightarrow> error + 'd kmsan_state" where
  "kmsan_slab_free E st s object =
     (if \<not> kmsan_ready st \<or> kmsan_in_runtime st then Inr st
      else if flags s AND (SLAB_TYPESAFE_BY_RCU E OR SLAB_POISON E) \<noteq> 0 then Inr st
      else if ctor s \<noteq> 0 then Inr st
      else
        (case kmsan_internal_poison_memory E (kmsan_enter_runtime st) object
                (ucast (object_size s)) (GFP_KERNEL E)
                (KMSAN_POISON_CHECK E OR KMSAN_POISON_FREE E) of
           Inl e \<Rightarrow> Inl e
         | Inr st' \<Rightarrow> Inr (kmsan_leave_runtime st')))"

text \<open>\<^verbatim>\<open>kmsan_kfree_large(ptr)\<close>.\<close>

definition kmsan_kfree_large ::
  "'d kmsan_env \<Rightarrow> 'd kmsan_state \<Rightarrow> u64 \<Rightarrow> error + 'd kmsan_state" where
  "kmsan_kfree_large E st ptr =
     (if \<not> kmsan_ready st \<or> kmsan_in_runtime st then Inr st
      else
        (let st1 = kmsan_enter_runtime st;
             pg = virt_to_head_page E ptr in
         if ptr \<noteq> page_address E pg then Inl BUG
         else
           (case kmsan_internal_poison_memory E st1 ptr
                   (push_bit (compound_order E pg) PAGE_SIZE) (GFP_KERNEL E)
                   (KMSAN_POISON_CHECK E OR KMSAN_POISON_FREE E) of
              Inl e \<Rightarrow> Inl e
            | Inr st' \<Rightarrow> Inr (kmsan_leave_runtime st'))))"

section \<open>A concrete configuration\<close>

text \<open>
  A small stack depot, content-addressed as the interface asks: a list of the records
  saved so far, at most \<open>cap\<close> of them when \<open>cap\<close> is given. Saving a record that is
  there returns its handle; a new record is appended unless the depot is full, in which
  case the handle is 0. A handle holds the record's index in its low 26 bits, a bit that
  is always set (so that no record has handle 0), and the extra bits in its 5 high bits.
\<close>

fun depot_find :: "(u64 list \<times> u32) list \<Rightarrow> u64 list \<times> u32 \<Rightarrow> nat \<Rightarrow> nat option" where
  "depot_find [] r k = None"
| "depot_find (x # xs) r k = (if x = r then Some k else depot_find xs r (k + 1))"

definition depot_handle :: "u32 \<Rightarrow> nat \<Rightarrow> u32" where
  "depot_handle extra_bits k =
     push_bit 27 extra_bits OR push_bit 26 1 OR take_bit 26 (word_of_nat k)"

definition list_depot_save ::
  "nat option \<Rightarrow> (u64 list \<times> u32) list \<Rightarrow> u64 list \<Rightarrow> u32 \<Rightarrow> u32
     \<Rightarrow> u32 \<times> (u64 list \<times> u32) list" where
  "list_depot_save cap d entries extra_bits gfp_flags =
     (case depot_find d (entries, extra_bits) 0 of
        Some k \<Rightarrow> (depot_handle extra_bits k, d)
      | None \<Rightarrow>
          if (case cap of None \<Rightarrow> True | Some c \<Rightarrow> length d < c)
          then (depot_handle extra_bits (length d), d @ [(entries, extra_bits)])
          else (0, d))"

text \<open>
  An x86-64 layout. The direct map starts at \<open>PAGE_OFFSET\<close>; the page structures stand
  in an array at \<open>0xffffea0000000000\<close>, 64 bytes each; the first 4096 page frames exist.
\<close>

definition demo_env :: "nat option \<Rightarrow> (u64 list \<times> u32) list kmsan_env" where
  "demo_env cap = \<lparr>
     VMALLOC_START = 0xffffc90000000000, VMALLOC_END = 0xffffd10000000000,
     MODULES_VADDR = 0xffffffffa0000000, MODULES_END = 0xffffffffff000000,
     KMSAN_VMALLOC_SHADOW_START = 0xffffd10000000000,
     KMSAN_VMALLOC_ORIGIN_START = 0xffffd90000000000,
     KMSAN_MODULES_SHADOW_START = 0xffffe10000000000,
     KMSAN_MODULES_ORIGIN_START = 0xffffe18000000000,
     CPU_ENTRY_AREA_BASE = 0xfffffe0000000000, CPU_ENTRY_AREA_MAP_SIZE = 0x8000000000,
     CPU_ENTRY_AREA_SIZE = 0x3d000, cpu_entry_area = 0xfffffe0000001000,
     cpu_entry_area_shadow = 0xffff888000400000, cpu_entry_area_origin = 0xffff888000440000,
     START_KERNEL_map = 0xffffffff80000000, PAGE_OFFSET = 0xffff888000000000,
     KERNEL_IMAGE_SIZE = 0x40000000, phys_base = 0, CONFIG_PHYS_ADDR_T_64BIT = True,
     x86_phys_bits = 46, pfn_valid = (\<lambda>pfn. pfn < 0x1000),
     virt_to_page = (\<lambda>v. 0xffffea0000000000 + 64 * drop_bit 12 (v - 0xffff888000000000)),
     page_address = (\<lambda>pg. 0xffff888000000000 + push_bit 12 ((pg - 0xffffea0000000000) div 64)),
     dummy_load_page = 0xffffffff82000000, dummy_store_page = 0xffffffff82001000,
     GFP_DIRECT_RECLAIM = 0x400, GFP_ATOMIC = 0xa20, GFP_KERNEL = 0xcc0,
     KMSAN_POISON_NOCHECK = 0, KMSAN_POISON_CHECK = 1, KMSAN_POISON_FREE = 2,
     SLAB_TYPESAFE_BY_RCU = 0x80000, SLAB_POISON = 0x800,
     virt_to_head_page =
       (\<lambda>v. 0xffffea0000000000 + 64 * drop_bit 12 (v - 0xffff888000000000)),
     compound_order = (\<lambda>pg. 0),
     KMSAN_CHAIN_MAGIC_ORIGIN = 0xBADC0DE,
     stack_depot_save_extra = list_depot_save cap,
     stack_depot_get_extra_bits = drop_bit 27 \<rparr>"

text \<open>
  A ready state in which one data page, the one at \<open>0xffff888000100000\<close>, has metadata:
  its shadow page is at \<open>0xffff888000200000\<close>, its origin page at
  \<open>0xffff888000300000\<close>. All metadata is zero and the depot is empty.
\<close>

definition demo_state :: "(u64 list \<times> u32) list kmsan_state" where
  "demo_state = \<lparr>
     kmsan_ready = True, ctx_in_runtime = 0,
     pages = (\<lambda>pg. if pg = 0xffffea0000004000
                    then \<lparr>kmsan_shadow = 0xffffea0000008000, kmsan_origin = 0xffffea000000c000\<rparr>
                    else \<lparr>kmsan_shadow = 0, kmsan_origin = 0\<rparr>),
     shadow_mem = (\<lambda>p. 0), origin_mem = (\<lambda>p. 0), depot = [],
     cur_stack = [0xffffffff81000010, 0xffffffff81000020],
     kmsan_skipped_origins = 0 \<rparr>"

text \<open>The address of the tracked page of \<open>demo_state\<close>.\<close>

definition demo_addr :: u64 where
  "demo_addr = 0xffff888000100000"

section \<open>The resolver does not look at the readiness flag or the re-entrancy guard\<close>

lemma kmsan_get_metadata_pages:
  "pages st' = pages st \<Longrightarrow> kmsan_get_metadata E st' a k = kmsan_get_metadata E st a k"
  by (simp add: kmsan_get_metadata_def page_has_metadata_def shadow_ptr_for_def
      origin_ptr_for_def Let_def)

lemma kmsan_get_metadata_update [simp]:
  "kmsan_get_metadata E (st\<lparr>kmsan_ready := r\<rparr>) = kmsan_get_metadata E st"
  "kmsan_get_metadata E (st\<lparr>ctx_in_runtime := c\<rparr>) = kmsan_get_metadata E st"
  "kmsan_get_metadata E (st\<lparr>shadow_mem := sm\<rparr>) = kmsan_get_metadata E st"
  "kmsan_get_metadata E (st\<lparr>origin_mem := om\<rparr>) = kmsan_get_metadata E st"
  "kmsan_get_metadata E (st\<lparr>depot := d\<rparr>) = kmsan_get_metadata E st"
  "kmsan_get_metadata E (st\<lparr>cur_stack := cs\<rparr>) = kmsan_get_metadata E st"
  "kmsan_get_metadata E (st\<lparr>kmsan_skipped_origins := k\<rparr>) = kmsan_get_metadata E st"
  by (intro ext kmsan_get_metadata_pages, simp)+

lemma demo_shadow [simp]:
  "kmsan_get_metadata (demo_env cap) demo_state demo_addr False = Inr 0xffff888000200000"
  by (simp add: kmsan_get_metadata_def demo_env_def demo_state_def demo_addr_def
      kmsan_internal_is_vmalloc_addr_def kmsan_internal_is_module_addr_def
      get_cea_meta_or_null_def virt_to_page_or_null_def kmsan_virt_addr_valid_def
      kmsan_phys_addr_valid_def page_has_metadata_def shadow_ptr_for_def PAGE_SIZE_def
      PAGE_SHIFT_def Let_def)

lemma demo_dummy_pages [simp]:
  "dummy_load_page (demo_env cap) = 0xffffffff82000000"
  "dummy_store_page (demo_env cap) = 0xffffffff82001000"
  by (simp_all add: demo_env_def)

text \<open>
  C2, as stated, fails: with the readiness flag false and the re-entrancy counter
  nonzero, the resolver still returns the shadow pointer of a tracked address.
\<close>

theorem kmsan_get_metadata_not_gated:
  "\<not> kmsan_ready (demo_state\<lparr>kmsan_ready := False, ctx_in_runtime := 1\<rparr>) \<and>
   kmsan_in_runtime (demo_state\<lparr>kmsan_ready := False, ctx_in_runtime := 1\<rparr>) \<and>
   kmsan_get_metadata (demo_env None) (demo_state\<lparr>kmsan_ready := False, ctx_in_runtime := 1\<rparr>)
     demo_addr False = Inr 0xffff888000200000"
proof -
  show ?thesis
    by (simp add: kmsan_in_runtime_def)
qed

text \<open>
  C2, amended: for every address and metadata kind, the resolver \<^verbatim>\<open>kmsan_get_metadata\<close>
  only computes a pointer, and the pointer is the same whatever the readiness flag and
  the re-entrancy counter are; it is \<^verbatim>\<open>kmsan_get_shadow_origin_ptr\<close> that tests the two
  and, when the subsystem is not ready or the context is inside the runtime, returns the
  dummy pages whatever the resolver would say.
\<close>

theorem kmsan_get_metadata_ignores_gates:
  "kmsan_get_metadata E (st\<lparr>kmsan_ready := r, ctx_in_runtime := c\<rparr>) address is_origin
     = kmsan_get_metadata E st address is_origin \<and>
   (sz \<le> PAGE_SIZE \<and> (\<not> r \<or> c \<noteq> 0) \<longrightarrow>
      kmsan_get_shadow_origin_ptr E (st\<lparr>kmsan_ready := r, ctx_in_runtime := c\<rparr>) address sz store
        = Inr (if store then \<lparr>shadow = dummy_store_page E, origin = dummy_store_page E\<rparr>
               else \<lparr>shadow = dummy_load_page E, origin = dummy_load_page E\<rparr>))"
  by (auto simp: kmsan_get_shadow_origin_ptr_def kmsan_in_runtime_def Let_def not_less)

theorem kmsan_get_metadata_ignores_gates_witness:
  "kmsan_get_metadata (demo_env None) (demo_state\<lparr>kmsan_ready := False, ctx_in_runtime := 2\<rparr>)
     demo_addr False = Inr 0xffff888000200000 \<and>
   kmsan_get_shadow_origin_ptr (demo_env None)
     (demo_state\<lparr>kmsan_ready := False, ctx_in_runtime := 2\<rparr>) demo_addr 8 False
     = Inr \<lparr>shadow = 0xffffffff82000000, origin = 0xffffffff82000000\<rparr>"
proof -
  have "(8 :: u64) \<le> PAGE_SIZE"
    by (simp add: PAGE_SIZE_def)
  then show ?thesis
    using kmsan_get_metadata_ignores_gates
            [where E = "demo_env None" and st = demo_state and r = False and c = 2
               and address = demo_addr and is_origin = False and sz = 8 and store = False]
    by simp
qed

section \<open>The access layer\<close>

text \<open>
  C8: \<^verbatim>\<open>kmsan_get_shadow_origin_ptr\<close> rejects a size above one page with \<^verbatim>\<open>BUG\<close>. For a
  size of at most one page: when the subsystem is not ready or the context is inside the
  runtime, and also when the access passes the contiguity assertion and the resolver has
  no shadow for the address, a load gets the dummy load page for both pointers and a
  store the dummy store page; when the access passes the assertion and the resolver has
  a shadow, the result is the resolver's shadow and origin pointers.
\<close>

theorem kmsan_get_shadow_origin_ptr_cases:
  "(sz > PAGE_SIZE \<longrightarrow> kmsan_get_shadow_origin_ptr E st address sz store = Inl BUG) \<and>
   (sz \<le> PAGE_SIZE \<and> (\<not> kmsan_ready st \<or> kmsan_in_runtime st) \<longrightarrow>
      kmsan_get_shadow_origin_ptr E st address sz False
        = Inr \<lparr>shadow = dummy_load_page E, origin = dummy_load_page E\<rparr> \<and>
      kmsan_get_shadow_origin_ptr E st address sz True
        = Inr \<lparr>shadow = dummy_store_page E, origin = dummy_store_page E\<rparr>) \<and>
   (sz \<le> PAGE_SIZE \<and> kmsan_ready st \<and> \<not> kmsan_in_runtime st \<and>
    kmsan_metadata_is_contiguous E st address sz = Inr True \<and>
    kmsan_get_metadata E st address False = Inr 0 \<longrightarrow>
      kmsan_get_shadow_origin_ptr E st address sz False
        = Inr \<lparr>shadow = dummy_load_page E, origin = dummy_load_page E\<rparr> \<and>
      kmsan_get_shadow_origin_ptr E st address sz True
        = Inr \<lparr>shadow = dummy_store_page E, origin = dummy_store_page E\<rparr>) \<and>
   (sz \<le> PAGE_SIZE \<and> kmsan_ready st \<and> \<not> kmsan_in_runtime st \<and>
    kmsan_metadata_is_contiguous E st address sz = Inr True \<and>
    kmsan_get_metadata E st address False = Inr s \<and> s \<noteq> 0 \<and>
    kmsan_get_metadata E st address True = Inr og \<longrightarrow>
      kmsan_get_shadow_origin_ptr E st address sz store = Inr \<lparr>shadow = s, origin = og\<rparr>)"
  by (auto simp: kmsan_get_shadow_origin_ptr_def Let_def not_less)

lemma demo_origin [simp]:
  "kmsan_get_metadata (demo_env cap) demo_state demo_addr True = Inr 0xffff888000300000"
  by (simp add: kmsan_get_metadata_def demo_env_def demo_state_def demo_addr_def
      kmsan_internal_is_vmalloc_addr_def kmsan_internal_is_module_addr_def
      get_cea_meta_or_null_def virt_to_page_or_null_def kmsan_virt_addr_valid_def
      kmsan_phys_addr_valid_def page_has_metadata_def origin_ptr_for_def PAGE_SIZE_def
      PAGE_SHIFT_def Let_def IS_ALIGNED_def KMSAN_ORIGIN_SIZE_def)

lemma demo_untracked [simp]:
  "kmsan_get_metadata (demo_env cap) demo_state (demo_addr + 0x1000) False = Inr 0"
  by (simp add: kmsan_get_metadata_def demo_env_def demo_state_def demo_addr_def
      kmsan_internal_is_vmalloc_addr_def kmsan_internal_is_module_addr_def
      get_cea_meta_or_null_def virt_to_page_or_null_def kmsan_virt_addr_valid_def
      kmsan_phys_addr_valid_def page_has_metadata_def PAGE_SIZE_def PAGE_SHIFT_def Let_def)

lemma demo_contiguous_8 [simp]:
  "kmsan_metadata_is_contiguous (demo_env cap) demo_state demo_addr 8 = Inr True"
  "kmsan_metadata_is_contiguous (demo_env cap) demo_state (demo_addr + 0x1000) 8 = Inr True"
  by (simp_all add: kmsan_metadata_is_contiguous_def ALIGN_DOWN_def PAGE_SIZE_def demo_addr_def)

theorem kmsan_get_shadow_origin_ptr_cases_witness:
  "kmsan_get_shadow_origin_ptr (demo_env None) demo_state demo_addr 0x2000 False = Inl BUG \<and>
   kmsan_get_shadow_origin_ptr (demo_env None) (demo_state\<lparr>kmsan_ready := False\<rparr>) demo_addr 8 False
     = Inr \<lparr>shadow = 0xffffffff82000000, origin = 0xffffffff82000000\<rparr> \<and>
   kmsan_get_shadow_origin_ptr (demo_env None) (demo_state\<lparr>kmsan_ready := False\<rparr>) demo_addr 8 True
     = Inr \<lparr>shadow = 0xffffffff82001000, origin = 0xffffffff82001000\<rparr> \<and>
   kmsan_get_shadow_origin_ptr (demo_env None) demo_state (demo_addr + 0x1000) 8 False
     = Inr \<lparr>shadow = 0xffffffff82000000, origin = 0xffffffff82000000\<rparr> \<and>
   kmsan_get_shadow_origin_ptr (demo_env None) demo_state (demo_addr + 0x1000) 8 True
     = Inr \<lparr>shadow = 0xffffffff82001000, origin = 0xffffffff82001000\<rparr> \<and>
   kmsan_get_shadow_origin_ptr (demo_env None) demo_state demo_addr 8 True
     = Inr \<lparr>shadow = 0xffff888000200000, origin = 0xffff888000300000\<rparr>"
proof -
  have ready: "kmsan_ready demo_state" "\<not> kmsan_in_runtime demo_state"
    by (simp_all add: demo_state_def kmsan_in_runtime_def)
  have big: "(0x2000 :: u64) > PAGE_SIZE" and small: "(8 :: u64) \<le> PAGE_SIZE"
    by (simp_all add: PAGE_SIZE_def)
  note T = kmsan_get_shadow_origin_ptr_cases
  have a: "kmsan_get_shadow_origin_ptr (demo_env None) demo_state demo_addr 0x2000 False = Inl BUG"
    using T [where sz = "0x2000" and E = "demo_env None" and st = demo_state
               and address = demo_addr and store = False] big
    by blast
  have b: "kmsan_get_shadow_origin_ptr (demo_env None) (demo_state\<lparr>kmsan_ready := False\<rparr>)
             demo_addr 8 False
             = Inr \<lparr>shadow = dummy_load_page (demo_env None), origin = dummy_load_page (demo_env None)\<rparr> \<and>
           kmsan_get_shadow_origin_ptr (demo_env None) (demo_state\<lparr>kmsan_ready := False\<rparr>)
             demo_addr 8 True
             = Inr \<lparr>shadow = dummy_store_page (demo_env None), origin = dummy_store_page (demo_env None)\<rparr>"
    using T [where sz = 8 and E = "demo_env None" and st = "demo_state\<lparr>kmsan_ready := False\<rparr>"
               and address = demo_addr] small
    by simp
  have c: "kmsan_get_shadow_origin_ptr (demo_env None) demo_state (demo_addr + 0x1000) 8 False
             = Inr \<lparr>shadow = dummy_load_page (demo_env None), origin = dummy_load_page (demo_env None)\<rparr> \<and>
           kmsan_get_shadow_origin_ptr (demo_env None) demo_state (demo_addr + 0x1000) 8 True
             = Inr \<lparr>shadow = dummy_store_page (demo_env None), origin = dummy_store_page (demo_env None)\<rparr>"
    using T [where sz = 8 and E = "demo_env None" and st = demo_state
               and address = "demo_addr + 0x1000"] small ready
    by simp
  have d: "kmsan_get_shadow_origin_ptr (demo_env None) demo_state demo_addr 8 True
             = Inr \<lparr>shadow = 0xffff888000200000, origin = 0xffff888000300000\<rparr>"
    using T [where sz = 8 and E = "demo_env None" and st = demo_state and address = demo_addr
               and store = True and s = "0xffff888000200000" and og = "0xffff888000300000"]
          small ready
    by simp
  show ?thesis
    using a b c d by simp
qed

section \<open>Chaining origins\<close>

text \<open>The chain depth and the use-after-free bit a handle carries.\<close>

definition handle_depth :: "'d kmsan_env \<Rightarrow> u32 \<Rightarrow> u32" where
  "handle_depth E h = kmsan_depth_from_eb (stack_depot_get_extra_bits E h)"

definition handle_uaf :: "'d kmsan_env \<Rightarrow> u32 \<Rightarrow> bool" where
  "handle_uaf E h = kmsan_uaf_from_eb (stack_depot_get_extra_bits E h)"

text \<open>
  Modelled from the spec: the stack depot (lib/stackdepot.c) is not among the sources.
  Its contract is the one of the provenance store: \<open>save(trace, extraBits)\<close> gives the
  handle of the stored record, which is never 0 ("no real provenance record is ever
  assigned handle 0"), and \<open>extraBits(handle)\<close> gives the bits back, for bits that fit
  the \<^verbatim>\<open>STACK_DEPOT_EXTRA_BITS\<close> the depot leaves to its users.
\<close>

definition stack_depot_contract :: "'d kmsan_env \<Rightarrow> bool" where
  "stack_depot_contract E =
     (\<forall>d entries extra_bits gfp_flags.
        extra_bits < 2 ^ STACK_DEPOT_EXTRA_BITS \<longrightarrow>
          fst (stack_depot_save_extra E d entries extra_bits gfp_flags) \<noteq> 0 \<and>
          stack_depot_get_extra_bits E
            (fst (stack_depot_save_extra E d entries extra_bits gfp_flags)) = extra_bits)"

text \<open>\<open>n\<close> calls of \<^verbatim>\<open>kmsan_internal_chain_origin\<close> in a row, each on the handle the call
  before returned.\<close>

fun chain_times :: "'d kmsan_env \<Rightarrow> nat \<Rightarrow> 'd kmsan_state \<Rightarrow> u32 \<Rightarrow> u32 \<times> 'd kmsan_state" where
  "chain_times E 0 st h = (h, st)"
| "chain_times E (Suc n) st h =
     (let (h', st') = kmsan_internal_chain_origin E st h in chain_times E n st' h')"

lemma depth_sint: "sint (kmsan_depth_from_eb eb) = uint (kmsan_depth_from_eb eb)"
proof -
  have "uint (drop_bit 1 eb) = uint eb div 2"
    by transfer (simp add: drop_bit_eq_div take_bit_eq_mod)
  moreover have "uint eb < 2 ^ 32"
    using uint_bounded [of eb] by simp
  ultimately have lt: "uint (drop_bit 1 eb) < 2 ^ 31"
    by simp
  have ge: "- (2 ^ 31) \<le> uint (drop_bit 1 eb)"
    by (rule order_trans [of _ 0]) simp_all
  have "signed_take_bit 31 (uint (drop_bit 1 eb)) = uint (drop_bit 1 eb)"
    using ge lt by (rule signed_take_bit_int_eq_self)
  then show ?thesis
    unfolding kmsan_depth_from_eb_def by (simp add: sint_uint)
qed

lemma small_word_cases:
  assumes "(w :: u32) < 7"
  shows "w = 0 \<or> w = 1 \<or> w = 2 \<or> w = 3 \<or> w = 4 \<or> w = 5 \<or> w = 6"
proof -
  have "unat w < 7"
    using assms by (simp add: word_less_nat_alt)
  then have "unat w = 0 \<or> unat w = 1 \<or> unat w = 2 \<or> unat w = 3 \<or> unat w = 4 \<or>
             unat w = 5 \<or> unat w = 6"
    by arith
  then show ?thesis
    by (simp add: word_unat_eq_iff)
qed

lemma extra_bits_roundtrip:
  assumes "(w :: u32) < 7"
  shows "kmsan_depth_from_eb (kmsan_extra_bits (w + 1) u) = w + 1"
    and "kmsan_uaf_from_eb (kmsan_extra_bits (w + 1) u) = u"
    and "kmsan_extra_bits (w + 1) u < 2 ^ STACK_DEPOT_EXTRA_BITS"
  using small_word_cases [OF assms]
  by (auto simp: kmsan_depth_from_eb_def kmsan_uaf_from_eb_def kmsan_extra_bits_def
      STACK_DEPOT_EXTRA_BITS_def)

lemma chain_origin_zero: "kmsan_internal_chain_origin E st 0 = (0, st)"
  by (simp add: kmsan_internal_chain_origin_def)

lemma chain_origin_saturated:
  assumes "7 \<le> handle_depth E h"
  shows "fst (kmsan_internal_chain_origin E st h) = h"
proof -
  have "7 \<le> uint (handle_depth E h)"
    using assms by (simp add: word_le_def)
  then show ?thesis
    by (simp add: kmsan_internal_chain_origin_def Let_def handle_depth_def depth_sint
        MAX_CHAIN_DEPTH_def)
qed

lemma chain_origin_deeper:
  assumes c: "stack_depot_contract E" and h: "h \<noteq> 0" and d: "handle_depth E h < 7"
  shows "fst (kmsan_internal_chain_origin E st h) \<noteq> 0"
    and "handle_depth E (fst (kmsan_internal_chain_origin E st h)) = handle_depth E h + 1"
    and "handle_uaf E (fst (kmsan_internal_chain_origin E st h)) = handle_uaf E h"
proof -
  let ?w = "handle_depth E h"
  let ?eb = "kmsan_extra_bits (?w + 1) (handle_uaf E h)"
  have lt: "uint ?w < 7"
    using d by (simp add: word_less_def)
  have w: "word_of_int (uint ?w + 1) = ?w + 1"
    by simp
  obtain h1 st1 where s1: "kmsan_save_stack_with_flags E st (GFP_ATOMIC E) ?eb = (h1, st1)"
    by (cases "kmsan_save_stack_with_flags E st (GFP_ATOMIC E) ?eb")
  have r: "fst (kmsan_internal_chain_origin E st h)
             = fst (stack_depot_save_extra E (depot st1)
                      [KMSAN_CHAIN_MAGIC_ORIGIN E, ucast h1, ucast h] ?eb (GFP_ATOMIC E))"
    using h lt s1
    by (simp add: kmsan_internal_chain_origin_def Let_def handle_depth_def [symmetric]
        handle_uaf_def [symmetric] depth_sint MAX_CHAIN_DEPTH_def w split: prod.split)
  have small: "?eb < 2 ^ STACK_DEPOT_EXTRA_BITS"
    by (rule extra_bits_roundtrip(3) [OF d])
  from c small have
    nz: "fst (stack_depot_save_extra E (depot st1)
                [KMSAN_CHAIN_MAGIC_ORIGIN E, ucast h1, ucast h] ?eb (GFP_ATOMIC E)) \<noteq> 0"
    and eb: "stack_depot_get_extra_bits E
               (fst (stack_depot_save_extra E (depot st1)
                       [KMSAN_CHAIN_MAGIC_ORIGIN E, ucast h1, ucast h] ?eb (GFP_ATOMIC E))) = ?eb"
    unfolding stack_depot_contract_def by blast+
  show "fst (kmsan_internal_chain_origin E st h) \<noteq> 0"
    using r nz by simp
  show "handle_depth E (fst (kmsan_internal_chain_origin E st h)) = ?w + 1"
    unfolding r handle_depth_def [of E "fst _"] eb
    by (rule extra_bits_roundtrip(1) [OF d])
  show "handle_uaf E (fst (kmsan_internal_chain_origin E st h)) = handle_uaf E h"
    unfolding r handle_uaf_def [of E "fst _"] eb
    by (rule extra_bits_roundtrip(2) [OF d])
qed

lemma chain_times_depth:
  assumes c: "stack_depot_contract E"
  shows "h \<noteq> 0 \<Longrightarrow> handle_depth E h = word_of_nat j \<Longrightarrow> j \<le> 7 \<Longrightarrow>
         fst (chain_times E n st h) \<noteq> 0 \<and>
         handle_depth E (fst (chain_times E n st h)) = word_of_nat (min 7 (j + n))"
proof (induction n arbitrary: st h j)
  case 0
  then show ?case by (simp add: min_def)
next
  case (Suc n)
  obtain h' st' where ch: "kmsan_internal_chain_origin E st h = (h', st')"
    by (cases "kmsan_internal_chain_origin E st h")
  show ?case
  proof (cases "j = 7")
    case True
    then have "7 \<le> handle_depth E h"
      using Suc.prems by simp
    then have "h' = h"
      using chain_origin_saturated [of E h st] ch by simp
    then show ?thesis
      using Suc.IH [of h 7 st'] Suc.prems True ch by simp
  next
    case False
    then have j: "j < 7"
      using Suc.prems by simp
    then have lt: "handle_depth E h < 7"
      using Suc.prems by (simp add: word_less_nat_alt unat_of_nat)
    have "h' \<noteq> 0" and "handle_depth E h' = word_of_nat (Suc j)"
      using chain_origin_deeper [OF c Suc.prems(1) lt, of st] ch Suc.prems(2) by simp_all
    then show ?thesis
      using Suc.IH [of h' "Suc j" st'] j ch by simp
  qed
qed

text \<open>
  C3: \<open>chain(0)\<close> is 0. A handle whose decoded depth has reached \<^verbatim>\<open>MAX_CHAIN_DEPTH\<close> is
  returned as it is. Otherwise, with a depot that keeps its contract, the handle
  returned has the depth of \<open>h\<close> plus one and the use-after-free bit of \<open>h\<close>. So chaining
  a nonzero handle of depth 0 eight times gives a handle of depth 7, which one more call
  returns unchanged. The function has no failure: it returns a handle in every case.
\<close>

theorem kmsan_internal_chain_origin_depth:
  "fst (kmsan_internal_chain_origin E st 0) = 0 \<and>
   (7 \<le> handle_depth E h \<longrightarrow> fst (kmsan_internal_chain_origin E st h) = h) \<and>
   (stack_depot_contract E \<and> h \<noteq> 0 \<and> handle_depth E h < 7 \<longrightarrow>
      handle_depth E (fst (kmsan_internal_chain_origin E st h)) = handle_depth E h + 1 \<and>
      handle_uaf E (fst (kmsan_internal_chain_origin E st h)) = handle_uaf E h) \<and>
   (stack_depot_contract E \<and> h \<noteq> 0 \<and> handle_depth E h = 0 \<longrightarrow>
      handle_depth E (fst (chain_times E 8 st h)) = 7 \<and>
      fst (kmsan_internal_chain_origin E (snd (chain_times E 8 st h))
             (fst (chain_times E 8 st h))) = fst (chain_times E 8 st h))"
proof (intro conjI impI)
  show "fst (kmsan_internal_chain_origin E st 0) = 0"
    by (simp add: chain_origin_zero)
  show "fst (kmsan_internal_chain_origin E st h) = h" if "7 \<le> handle_depth E h"
    using that by (rule chain_origin_saturated)
next
  assume a: "stack_depot_contract E \<and> h \<noteq> 0 \<and> handle_depth E h < 7"
  then show "handle_depth E (fst (kmsan_internal_chain_origin E st h)) = handle_depth E h + 1"
    and "handle_uaf E (fst (kmsan_internal_chain_origin E st h)) = handle_uaf E h"
    using chain_origin_deeper [of E h st] by simp_all
next
  assume a: "stack_depot_contract E \<and> h \<noteq> 0 \<and> handle_depth E h = 0"
  then have d: "handle_depth E (fst (chain_times E 8 st h)) = 7"
    using chain_times_depth [of E h 0 8 st] by simp
  then show "handle_depth E (fst (chain_times E 8 st h)) = 7" .
  show "fst (kmsan_internal_chain_origin E (snd (chain_times E 8 st h))
               (fst (chain_times E 8 st h))) = fst (chain_times E 8 st h)"
    using d by (simp add: chain_origin_saturated)
qed

lemma depot_handle_extra_bits:
  assumes "extra_bits < 2 ^ STACK_DEPOT_EXTRA_BITS"
  shows "drop_bit 27 (depot_handle extra_bits k) = extra_bits"
proof (rule bit_word_eqI)
  fix n
  assume n: "n < LENGTH(32)"
  have tb: "take_bit 5 extra_bits = extra_bits"
    using less_mask_eq [of extra_bits 5] assms
    by (simp add: take_bit_eq_mask STACK_DEPOT_EXTRA_BITS_def)
  have hi: "\<not> bit extra_bits m" if "5 \<le> m" for m
  proof -
    have "bit (take_bit 5 extra_bits) m \<longleftrightarrow> m < 5 \<and> bit extra_bits m"
      by (rule bit_take_bit_iff)
    then show ?thesis
      using that tb by simp
  qed
  show "bit (drop_bit 27 (depot_handle extra_bits k)) n = bit extra_bits n"
    using n hi [of n] by (cases "5 \<le> n") (auto simp: depot_handle_def bit_simps)
qed

lemma depot_handle_nonzero: "depot_handle extra_bits k \<noteq> 0"
proof
  assume "depot_handle extra_bits k = 0"
  then have "bit (depot_handle extra_bits k) 26 = bit (0 :: u32) 26"
    by simp
  then show False
    by (simp add: depot_handle_def bit_simps)
qed

lemma demo_depot_contract: "stack_depot_contract (demo_env None)"
  unfolding stack_depot_contract_def
  by (auto simp: demo_env_def list_depot_save_def depot_handle_nonzero depot_handle_extra_bits
      split: option.split)

lemma demo_extra_bits [simp]: "stack_depot_get_extra_bits (demo_env cap) = drop_bit 27"
  by (simp add: demo_env_def)

theorem kmsan_internal_chain_origin_depth_witness:
  "fst (kmsan_internal_chain_origin (demo_env None) demo_state 0) = 0 \<and>
   fst (kmsan_internal_chain_origin (demo_env None) demo_state 0x74000000) = 0x74000000 \<and>
   handle_depth (demo_env None)
     (fst (kmsan_internal_chain_origin (demo_env None) demo_state 0x04000000)) = 1 \<and>
   handle_uaf (demo_env None)
     (fst (kmsan_internal_chain_origin (demo_env None) demo_state 0x0C000000)) \<and>
   handle_depth (demo_env None) (fst (chain_times (demo_env None) 8 demo_state 0x04000000)) = 7"
proof -
  note T = kmsan_internal_chain_origin_depth [where E = "demo_env None" and st = demo_state]
  have "handle_depth (demo_env None) 0x74000000 = 7"
    and "handle_depth (demo_env None) 0x04000000 = 0"
    and "handle_depth (demo_env None) 0x0C000000 = 0"
    and "handle_uaf (demo_env None) 0x0C000000"
    by (simp_all add: handle_depth_def handle_uaf_def kmsan_depth_from_eb_def
        kmsan_uaf_from_eb_def)
  then show ?thesis
    using T [where h = "0x74000000"] T [where h = "0x04000000"] T [where h = "0x0C000000"]
      demo_depot_contract
    by simp
qed

section \<open>A poisoned block\<close>

text \<open>
  A state of the demonstration in which the first eight bytes of the tracked page are
  poisoned with origin \<open>0x04000000\<close>, the handle of the first record of the depot,
  which has depth 0.
\<close>

definition demo_poisoned :: "(u64 list \<times> u32) list kmsan_state" where
  "demo_poisoned = demo_state\<lparr>
     shadow_mem := memset (\<lambda>p. 0) 0xffff888000200000 0xFF 8,
     origin_mem := (\<lambda>p. 0)(0xffff888000300000 := 0x04000000, 0xffff888000300004 := 0x04000000),
     depot := [([0xffffffff81000010, 0xffffffff81000020], 0)]\<rparr>"

section \<open>Facts about offsets\<close>

lemma to_int_small:
  assumes "unat w < 2 ^ 31"
  shows "to_int w = int (unat w)"
proof -
  have "unat (ucast w :: u32) = take_bit 32 (unat w)"
    using unsigned_ucast_eq [where ?'a = nat and ?'c = 32 and w = w] by simp
  then have u: "unat (ucast w :: u32) = unat w"
    using assms by (simp add: take_bit_nat_eq_self)
  have e: "uint (ucast w :: u32) = uint w"
    using arg_cong [OF u, of int] by simp
  have "int (unat w) < int (2 ^ 31)"
    using assms by (rule iffD2 [OF of_nat_less_iff])
  then have lt: "uint (ucast w :: u32) < 2 ^ 31"
    using e by simp
  have ge: "- (2 ^ 31) \<le> uint (ucast w :: u32)"
    by (rule order_trans [of _ 0]) simp_all
  have "signed_take_bit 31 (uint (ucast w :: u32)) = uint (ucast w :: u32)"
    using ge lt by (rule signed_take_bit_int_eq_self)
  then have "sint (ucast w :: u32) = uint (ucast w :: u32)"
    by (simp add: sint_uint)
  then show ?thesis
    using e by (simp add: to_int_def)
qed

lemma chunk_index:
  assumes "pos < sz" and "i < unat (chunk_size_at addr sz pos)"
  shows "unat (pos + word_of_nat i) = unat pos + i" and "unat pos + i < unat sz"
proof -
  have "unat (chunk_size_at addr sz pos) \<le> unat (sz - pos)"
    using chunk_size_at_bounds(2) [OF assms(1)] by (simp add: word_le_nat_alt)
  moreover have "unat (sz - pos) = unat sz - unat pos"
    using assms(1) by (simp add: unat_sub)
  moreover have "unat pos < unat sz"
    using assms(1) by (simp add: word_less_nat_alt)
  ultimately show lt: "unat pos + i < unat sz"
    using assms(2) by arith
  have "unat sz < 2 ^ 64"
    using unsigned_less [where ?'a = nat and w = sz] by simp
  then have "unat pos + i < 2 ^ 64"
    using lt by arith
  then show "unat (pos + word_of_nat i) = unat pos + i"
    by (simp add: unat_word_ariths unat_of_nat)
qed

lemma chunk_next:
  assumes "pos < sz"
  shows "unat (pos + chunk_size_at addr sz pos) = unat pos + unat (chunk_size_at addr sz pos)"
    and "pos + chunk_size_at addr sz pos \<le> sz"
proof -
  have c: "unat (chunk_size_at addr sz pos) \<le> unat (sz - pos)"
    using chunk_size_at_bounds(2) [OF assms(1)] by (simp add: word_le_nat_alt)
  have s: "unat (sz - pos) = unat sz - unat pos"
    using assms(1) by (simp add: unat_sub)
  have p: "unat pos < unat sz"
    using assms(1) by (simp add: word_less_nat_alt)
  have "unat sz < 2 ^ 64"
    using unsigned_less [where ?'a = nat and w = sz] by simp
  then have "unat pos + unat (chunk_size_at addr sz pos) < 2 ^ 64"
    using c s p by arith
  then show e: "unat (pos + chunk_size_at addr sz pos)
                  = unat pos + unat (chunk_size_at addr sz pos)"
    by (simp add: unat_word_ariths)
  show "pos + chunk_size_at addr sz pos \<le> sz"
    using e c s p by (simp add: word_le_nat_alt)
qed

section \<open>What the scanner reports\<close>

text \<open>The origin handle of the granule that holds byte \<open>k\<close> of the range at \<open>addr\<close>.\<close>

definition origin_at :: "'d kmsan_env \<Rightarrow> 'd kmsan_state \<Rightarrow> u64 \<Rightarrow> nat \<Rightarrow> u32" where
  "origin_at E st addr k =
     (case kmsan_get_metadata E st (addr + word_of_nat k) True of
        Inr q \<Rightarrow> origin_mem st q
      | Inl e \<Rightarrow> 0)"

text \<open>
  A report is well attributed when its origin is not 0, its offsets are a nonempty run
  inside the range, and every byte of the run lies in a granule whose origin handle is
  the report's.
\<close>

definition good_report :: "'d kmsan_env \<Rightarrow> 'd kmsan_state \<Rightarrow> u64 \<Rightarrow> u64 \<Rightarrow> report \<Rightarrow> bool" where
  "good_report E st addr sz r =
     (rep_origin r \<noteq> 0 \<and> 0 \<le> rep_off_first r \<and> rep_off_first r \<le> rep_off_last r \<and>
      rep_off_last r < int (unat sz) \<and>
      (\<forall>k \<in> {nat (rep_off_first r)..nat (rep_off_last r)}.
         origin_at E st addr k = rep_origin r))"

text \<open>The scanner's invariant when it stands before byte \<open>P\<close>.\<close>

definition scan_inv :: "'d kmsan_env \<Rightarrow> 'd kmsan_state \<Rightarrow> u64 \<Rightarrow> u64 \<Rightarrow> nat \<Rightarrow> scan \<Rightarrow> bool" where
  "scan_inv E st addr sz P s =
     ((\<forall>r \<in> set (emitted s). good_report E st addr sz r) \<and>
      (cur_origin s \<noteq> 0 \<longrightarrow>
         0 \<le> cur_off_start s \<and> cur_off_start s < int P \<and>
         (\<forall>k. nat (cur_off_start s) \<le> k \<and> k < P \<longrightarrow>
            origin_at E st addr k = cur_origin s)))"

lemma report_run_fields [simp]:
  "cur_origin (report_run addr sz ua reason w s) = cur_origin s"
  "cur_off_start (report_run addr sz ua reason w s) = cur_off_start s"
  by (simp_all add: report_run_def)

lemma report_run_good:
  assumes inv: "scan_inv E st addr sz P s" and P: "P \<le> unat sz" and sz: "unat sz < 2 ^ 31"
    and w: "0 < P \<longrightarrow> unat w = P - 1"
  shows "\<forall>r \<in> set (emitted (report_run addr sz ua reason w s)). good_report E st addr sz r"
proof (cases "cur_origin s = 0")
  case True
  then show ?thesis
    using inv by (simp add: report_run_def scan_inv_def)
next
  case False
  with inv have c: "0 \<le> cur_off_start s" "cur_off_start s < int P"
    and o: "\<forall>k. nat (cur_off_start s) \<le> k \<and> k < P \<longrightarrow> origin_at E st addr k = cur_origin s"
    by (simp_all add: scan_inv_def)
  from c have "0 < P" by simp
  with w have uw: "unat w = P - 1" by simp
  then have "unat w < 2 ^ 31"
    using P sz by simp
  then have t: "to_int w = int (P - 1)"
    using uw by (simp only: to_int_small)
  have "int P \<le> int (unat sz)"
    using P by (rule iffD2 [OF of_nat_le_iff])
  then have Pz: "int P \<le> uint sz"
    by simp
  have "good_report E st addr sz
          \<lparr>rep_origin = cur_origin s, rep_address = addr, rep_size = sz,
           rep_off_first = cur_off_start s, rep_off_last = to_int w,
           rep_user_addr = ua, rep_reason = reason\<rparr>"
    unfolding good_report_def t
    using False c o Pz \<open>0 < P\<close> by auto
  then show ?thesis
    using inv False by (simp add: report_run_def scan_inv_def)
qed

lemma scan_inv_reset:
  assumes "\<forall>r \<in> set (emitted s). good_report E st addr sz r"
  shows "scan_inv E st addr sz P (s\<lparr>cur_origin := 0, cur_off_start := c\<rparr>)"
  using assms by (simp add: scan_inv_def)

lemma check_chunk_inv:
  assumes sz: "unat sz < 2 ^ 31" and fit: "unat pos + chunk \<le> unat sz"
  shows "i \<le> chunk \<Longrightarrow> scan_inv E st addr sz (unat pos + i) s \<Longrightarrow>
         check_chunk E st addr sz ua reason pos sh chunk i s = Inr s' \<Longrightarrow>
         scan_inv E st addr sz (unat pos + chunk) s'"
proof (induction "chunk - i" arbitrary: i s)
  case 0
  then have "i = chunk" by simp
  with 0 show ?case
    by (simp add: check_chunk.simps [of _ _ _ _ _ _ _ _ chunk chunk])
next
  case (Suc d)
  then have i: "i < chunk" by simp
  define P where "P = unat pos + i"
  have inv: "scan_inv E st addr sz P s"
    using Suc.prems(2) by (simp add: P_def)
  have nxt: "unat pos + (i + 1) = Suc P"
    by (simp add: P_def)
  have P: "P < unat sz"
    using i fit by (simp add: P_def)
  then have P64: "P < 2 ^ 64"
    using unsigned_less [where ?'a = nat and w = sz] by simp
  have up: "unat (pos + word_of_nat i) = P"
    using P64 by (simp add: unat_word_ariths unat_of_nat P_def)
  have wP: "word_of_nat P = pos + (word_of_nat i :: u64)"
    by (simp add: P_def)
  have last: "0 < P \<longrightarrow> unat (pos + word_of_nat i - 1) = P - 1"
  proof
    assume "0 < P"
    then have "pos + word_of_nat i \<noteq> 0"
      using up by (metis less_numeral_extra(3) unat_0)
    then show "unat (pos + word_of_nat i - 1) = P - 1"
      using up by (simp add: unat_minus_one)
  qed
  have good: "\<forall>r \<in> set (emitted (report_run addr sz ua reason (pos + word_of_nat i - 1) s)).
                good_report E st addr sz r"
    using inv _ sz last by (rule report_run_good) (use P in simp)
  have d: "d = chunk - (i + 1)" and i1: "i + 1 \<le> chunk"
    using Suc.hyps(2) i by simp_all
  show ?case
  proof (cases "shadow_mem st (sh + word_of_nat i) = 0")
    case True
    let ?s1 = "(report_run addr sz ua reason (pos + word_of_nat i - 1) s)
                 \<lparr>cur_origin := 0, cur_off_start := - 1\<rparr>"
    have run: "check_chunk E st addr sz ua reason pos sh chunk (i + 1) ?s1 = Inr s'"
      using Suc.prems(3) i True
      by (simp add: check_chunk.simps [of _ _ _ _ _ _ _ _ chunk i])
    have "scan_inv E st addr sz (unat pos + (i + 1)) ?s1"
      using good by (rule scan_inv_reset)
    with Suc.hyps(1) [OF d i1 _ run] show ?thesis .
  next
    case False
    obtain q where q: "kmsan_get_metadata E st (addr + pos + word_of_nat i) True = Inr q"
      and qz: "q \<noteq> 0"
      using Suc.prems(3) i False
      by (simp add: check_chunk.simps [of _ _ _ _ _ _ _ _ chunk i] split: sum.splits if_splits)
    define new where "new = origin_mem st q"
    have at: "origin_at E st addr P = new"
      unfolding origin_at_def wP new_def using q by (simp add: add.assoc)
    show ?thesis
    proof (cases "cur_origin s = new")
      case True
      have run: "check_chunk E st addr sz ua reason pos sh chunk (i + 1) s = Inr s'"
        using Suc.prems(3) i False q qz True
        by (simp add: check_chunk.simps [of _ _ _ _ _ _ _ _ chunk i] Let_def new_def)
      have "scan_inv E st addr sz (Suc P) s"
        using inv True at
        unfolding scan_inv_def
        by (auto simp: less_Suc_eq)
      with Suc.hyps(1) [OF d i1 _ run] nxt show ?thesis by simp
    next
      case neq: False
      let ?s1 = "(report_run addr sz ua reason (pos + word_of_nat i - 1) s)
                   \<lparr>cur_origin := new, cur_off_start := to_int (pos + word_of_nat i)\<rparr>"
      have run: "check_chunk E st addr sz ua reason pos sh chunk (i + 1) ?s1 = Inr s'"
        using Suc.prems(3) i False q qz neq
        by (simp add: check_chunk.simps [of _ _ _ _ _ _ _ _ chunk i] Let_def new_def)
      have "unat (pos + word_of_nat i) < 2 ^ 31"
        using up P sz by simp
      then have t: "to_int (pos + word_of_nat i) = int P"
        using up by (simp only: to_int_small)
      have "scan_inv E st addr sz (Suc P) ?s1"
        unfolding scan_inv_def t
        using good at by (auto simp: less_Suc_eq)
      with Suc.hyps(1) [OF d i1 _ run] nxt show ?thesis by simp
    qed
  qed
qed

lemma check_pages_inv:
  assumes sz: "unat sz < 2 ^ 31"
  shows "pos \<le> sz \<Longrightarrow> scan_inv E st addr sz (unat pos) s \<Longrightarrow>
         check_pages E st addr sz ua reason pos s = Inr s' \<Longrightarrow>
         \<forall>r \<in> set (emitted s'). good_report E st addr sz r"
proof (induction "unat (sz - pos)" arbitrary: pos s rule: less_induct)
  case less
  have ple: "unat pos \<le> unat sz"
    using less.prems(1) by (simp add: word_le_nat_alt)
  have last: "0 < unat pos \<longrightarrow> unat (pos - 1) = unat pos - 1"
  proof
    assume "0 < unat pos"
    then have "pos \<noteq> 0"
      by (metis less_numeral_extra(3) unat_0)
    then show "unat (pos - 1) = unat pos - 1"
      by (simp add: unat_minus_one)
  qed
  have good: "\<forall>r \<in> set (emitted (report_run addr sz ua reason (pos - 1) s)).
                good_report E st addr sz r"
    using less.prems(2) ple sz last by (rule report_run_good)
  show ?case
  proof (cases "pos < sz")
    case False
    then have "s' = report_run addr sz ua reason (pos - 1) s"
      using less.prems(3) by (simp add: check_pages.simps [of _ _ _ sz _ _ pos] split: if_splits)
    then show ?thesis
      using good by simp
  next
    case True
    define c where "c = chunk_size_at addr sz pos"
    have dec: "unat (sz - (pos + c)) < unat (sz - pos)"
      unfolding c_def using True by (rule check_pages_decreases)
    have nx: "unat (pos + c) = unat pos + unat c" and le: "pos + c \<le> sz"
      unfolding c_def using chunk_next [OF True] by simp_all
    have fit: "unat pos + unat c \<le> unat sz"
      using nx le by (simp add: word_le_nat_alt)
    obtain p where p: "kmsan_get_metadata E st (addr + pos) False = Inr p"
      using less.prems(3) True
      by (cases "kmsan_get_metadata E st (addr + pos) False")
         (simp_all add: check_pages.simps [of _ _ _ sz _ _ pos] Let_def)
    show ?thesis
    proof (cases "p = 0")
      case pz: True
      let ?s1 = "(report_run addr sz ua reason (pos - 1) s)\<lparr>cur_origin := 0, cur_off_start := - 1\<rparr>"
      have run: "check_pages E st addr sz ua reason (pos + c) ?s1 = Inr s'"
        using less.prems(3) True p pz
        by (simp add: check_pages.simps [of _ _ _ sz _ _ pos] Let_def c_def)
      have "scan_inv E st addr sz (unat (pos + c)) ?s1"
        using good by (rule scan_inv_reset)
      with less.hyps [OF dec le _ run] show ?thesis .
    next
      case pnz: False
      obtain s2 where ck: "check_chunk E st addr sz ua reason pos p (unat c) 0 s = Inr s2"
        and run: "check_pages E st addr sz ua reason (pos + c) s2 = Inr s'"
        using less.prems(3) True p pnz
        by (simp add: check_pages.simps [of _ _ _ sz _ _ pos] Let_def c_def split: sum.splits)
      have "scan_inv E st addr sz (unat pos + unat c) s2"
        using sz fit _ _ ck by (rule check_chunk_inv) (use less.prems(2) in simp_all)
      then have "scan_inv E st addr sz (unat (pos + c)) s2"
        using nx by simp
      with less.hyps [OF dec le _ run] show ?thesis .
    qed
  qed
qed

text \<open>
  C9: when the scanner has gone through a range (of less than \<open>2 ^ 31\<close> bytes, so that
  offsets fit the \<^verbatim>\<open>int\<close> they are passed in), every report it has emitted carries a
  nonzero origin handle, and every byte of the reported run lies in a granule that holds
  that very handle: a byte whose granule holds handle 0 is in no report. So a range
  whose origin handles are all 0 gives no report, whatever its shadow.
\<close>

theorem check_memory_reports_have_origin:
  assumes "unat sz < 2 ^ 31"
    and "kmsan_internal_check_memory E st addr sz ua reason = Inr rs"
  shows "(\<forall>r \<in> set rs. good_report E st addr sz r) \<and>
         ((\<forall>k < unat sz. origin_at E st addr k = 0) \<longrightarrow> rs = [])"
proof -
  have all: "\<forall>r \<in> set rs. good_report E st addr sz r"
  proof (cases "sz = 0")
    case True
    then show ?thesis
      using assms(2) by (auto simp: kmsan_internal_check_memory_def)
  next
    case False
    then obtain s' where run: "check_pages E st addr sz ua reason 0
        \<lparr>cur_origin = 0, cur_off_start = - 1, emitted = []\<rparr> = Inr s'" and rs: "rs = emitted s'"
      using assms(2)
      by (auto simp: kmsan_internal_check_memory_def split: sum.splits bool.splits)
    have "scan_inv E st addr sz (unat (0 :: u64))
            \<lparr>cur_origin = 0, cur_off_start = - 1, emitted = []\<rparr>"
      by (simp add: scan_inv_def)
    then show ?thesis
      using check_pages_inv [OF assms(1) _ _ run] rs by simp
  qed
  moreover have "rs = []" if z: "\<forall>k < unat sz. origin_at E st addr k = 0"
  proof (rule ccontr)
    assume "rs \<noteq> []"
    then obtain r where r: "r \<in> set rs"
      by (cases rs) auto
    with all have g: "good_report E st addr sz r"
      by simp
    define k where "k = nat (rep_off_first r)"
    have "nat (rep_off_first r) \<le> nat (rep_off_last r)"
      using g unfolding good_report_def by (intro nat_mono) simp
    then have "k \<in> {nat (rep_off_first r)..nat (rep_off_last r)}"
      by (simp add: k_def)
    then have "origin_at E st addr k = rep_origin r"
      using g by (simp add: good_report_def)
    moreover have "int k < int (unat sz)"
      using g unfolding good_report_def k_def by linarith
    then have "k < unat sz"
      by (rule iffD1 [OF of_nat_less_iff])
    ultimately show False
      using z g by (simp add: good_report_def)
  qed
  ultimately show ?thesis
    by blast
qed

text \<open>
  In this state the first eight bytes of the tracked page are poisoned, the first
  granule has origin \<open>0x04000000\<close> and the second has origin 0.
\<close>

definition demo_half_origin :: "(u64 list \<times> u32) list kmsan_state" where
  "demo_half_origin = demo_state\<lparr>
     shadow_mem := memset (\<lambda>p. 0) 0xffff888000200000 0xFF 8,
     origin_mem := (\<lambda>p. 0)(0xffff888000300000 := 0x04000000)\<rparr>"

lemma demo_half_origin_check:
  "kmsan_internal_check_memory (demo_env None) demo_half_origin demo_addr 8 0 0
     = Inr [\<lparr>rep_origin = 0x04000000, rep_address = demo_addr, rep_size = 8,
              rep_off_first = 0, rep_off_last = 3, rep_user_addr = 0, rep_reason = 0\<rparr>]"
  by code_simp

theorem check_memory_reports_have_origin_witness:
  "kmsan_internal_check_memory (demo_env None) demo_half_origin demo_addr 8 0 0
     = Inr [\<lparr>rep_origin = 0x04000000, rep_address = demo_addr, rep_size = 8,
              rep_off_first = 0, rep_off_last = 3, rep_user_addr = 0, rep_reason = 0\<rparr>] \<and>
   good_report (demo_env None) demo_half_origin demo_addr 8
     \<lparr>rep_origin = 0x04000000, rep_address = demo_addr, rep_size = 8,
      rep_off_first = 0, rep_off_last = 3, rep_user_addr = 0, rep_reason = 0\<rparr>"
proof -
  have "unat (8 :: u64) < 2 ^ 31"
    by simp
  then show ?thesis
    using check_memory_reports_have_origin [OF _ demo_half_origin_check]
      demo_half_origin_check
    by simp
qed

section \<open>The contiguity check and the resolver read the page structures only\<close>

lemma kmsan_get_metadata_pages_fun:
  assumes "pages st' = pages st"
  shows "kmsan_get_metadata E st' = kmsan_get_metadata E st"
  by (rule ext, rule ext, rule kmsan_get_metadata_pages, rule assms)

lemma contiguous_loop_pages_Some:
  assumes "contiguous_loop E st lim au next_addr cs co = Some y"
  shows "\<forall>st'. pages st' = pages st \<longrightarrow> contiguous_loop E st' lim au next_addr cs co = Some y"
  apply (rule contiguous_loop.raw_induct
      [where P = "\<lambda>E st lim au next_addr cs co y.
         \<forall>st'. pages st' = pages st \<longrightarrow> contiguous_loop E st' lim au next_addr cs co = Some y",
       OF _ assms])
  subgoal premises prems for f E st lim au next_addr cs co y
  proof (intro allI impI)
    fix st' :: "'a kmsan_state"
    assume pg: "pages st' = pages st"
    have m: "kmsan_get_metadata E st' = kmsan_get_metadata E st"
      using pg by (rule kmsan_get_metadata_pages_fun)
    show "contiguous_loop E st' lim au next_addr cs co = Some y"
      using prems(2) prems(1) pg
      by (subst contiguous_loop.simps) (auto simp: m Let_def split: if_splits)
  qed
  done

lemma contiguous_loop_pages:
  assumes "pages st' = pages st"
  shows "contiguous_loop E st' lim au next_addr cs co
           = contiguous_loop E st lim au next_addr cs co"
proof (cases "contiguous_loop E st lim au next_addr cs co")
  case (Some y)
  then show ?thesis
    using contiguous_loop_pages_Some [OF Some] assms by simp
next
  case None
  show ?thesis
  proof (cases "contiguous_loop E st' lim au next_addr cs co")
    case (Some y)
    then show ?thesis
      using contiguous_loop_pages_Some [OF Some] assms None by simp
  qed (simp add: None)
qed

lemma kmsan_metadata_is_contiguous_pages:
  assumes "pages st' = pages st"
  shows "kmsan_metadata_is_contiguous E st' addr sz = kmsan_metadata_is_contiguous E st addr sz"
proof -
  have m: "kmsan_get_metadata E st' = kmsan_get_metadata E st"
    using assms by (rule kmsan_get_metadata_pages_fun)
  show ?thesis
    unfolding kmsan_metadata_is_contiguous_def m contiguous_loop_pages [OF assms]
    by (rule refl)
qed

lemma kmsan_metadata_is_contiguous_update [simp]:
  "kmsan_metadata_is_contiguous E (st\<lparr>kmsan_ready := r\<rparr>) = kmsan_metadata_is_contiguous E st"
  "kmsan_metadata_is_contiguous E (st\<lparr>ctx_in_runtime := c\<rparr>) = kmsan_metadata_is_contiguous E st"
  "kmsan_metadata_is_contiguous E (st\<lparr>shadow_mem := sm\<rparr>) = kmsan_metadata_is_contiguous E st"
  "kmsan_metadata_is_contiguous E (st\<lparr>origin_mem := om\<rparr>) = kmsan_metadata_is_contiguous E st"
  "kmsan_metadata_is_contiguous E (st\<lparr>depot := d\<rparr>) = kmsan_metadata_is_contiguous E st"
  "kmsan_metadata_is_contiguous E (st\<lparr>cur_stack := cs\<rparr>) = kmsan_metadata_is_contiguous E st"
  "kmsan_metadata_is_contiguous E (st\<lparr>kmsan_skipped_origins := k\<rparr>)
     = kmsan_metadata_is_contiguous E st"
  by (rule ext, rule ext, rule kmsan_metadata_is_contiguous_pages, simp)+

lemma kmsan_get_metadata_shadow_total:
  "\<exists>p. kmsan_get_metadata E st a False = Inr p"
  by (simp add: kmsan_get_metadata_def vmalloc_meta_def Let_def)

section \<open>Ranges on which the scanner stays silent\<close>

lemma check_chunk_quiet:
  assumes q: "\<And>j. j < chunk \<Longrightarrow>
                shadow_mem st (sh + word_of_nat j) = 0 \<or>
                (\<exists>q. kmsan_get_metadata E st (addr + pos + word_of_nat j) True = Inr q \<and>
                     q \<noteq> 0 \<and> origin_mem st q = 0)"
  shows "cur_origin s = 0 \<Longrightarrow>
         \<exists>s'. check_chunk E st addr sz ua reason pos sh chunk i s = Inr s' \<and>
              cur_origin s' = 0 \<and> emitted s' = emitted s"
proof (induction "chunk - i" arbitrary: i s)
  case 0
  then show ?case
    by (simp add: check_chunk.simps [of _ _ _ _ _ _ _ _ chunk i])
next
  case (Suc d)
  then have i: "i < chunk" and d: "d = chunk - (i + 1)"
    by simp_all
  show ?case
  proof (cases "shadow_mem st (sh + word_of_nat i) = 0")
    case True
    let ?s1 = "(report_run addr sz ua reason (pos + word_of_nat i - 1) s)
                 \<lparr>cur_origin := 0, cur_off_start := - 1\<rparr>"
    have "cur_origin ?s1 = 0" and "emitted ?s1 = emitted s"
      using Suc.prems by (simp_all add: report_run_def)
    with Suc.hyps(1) [OF d, of ?s1] show ?thesis
      using i True by (simp add: check_chunk.simps [of _ _ _ _ _ _ _ _ chunk i])
  next
    case False
    with q [OF i] obtain q where
      "kmsan_get_metadata E st (addr + pos + word_of_nat i) True = Inr q"
      "q \<noteq> 0" "origin_mem st q = 0"
      by auto
    with Suc.hyps(1) [OF d Suc.prems] show ?thesis
      using i False Suc.prems
      by (simp add: check_chunk.simps [of _ _ _ _ _ _ _ _ chunk i])
  qed
qed

lemma check_pages_quiet:
  assumes q: "\<And>pos p j. pos < sz \<Longrightarrow> kmsan_get_metadata E st (addr + pos) False = Inr p \<Longrightarrow>
                p \<noteq> 0 \<Longrightarrow> j < unat (chunk_size_at addr sz pos) \<Longrightarrow>
                shadow_mem st (p + word_of_nat j) = 0 \<or>
                (\<exists>q. kmsan_get_metadata E st (addr + pos + word_of_nat j) True = Inr q \<and>
                     q \<noteq> 0 \<and> origin_mem st q = 0)"
  shows "pos \<le> sz \<Longrightarrow> cur_origin s = 0 \<Longrightarrow>
         \<exists>s'. check_pages E st addr sz ua reason pos s = Inr s' \<and> emitted s' = emitted s"
proof (induction "unat (sz - pos)" arbitrary: pos s rule: less_induct)
  case less
  show ?case
  proof (cases "pos < sz")
    case False
    then have "pos = sz"
      using less.prems(1) by simp
    then show ?thesis
      using less.prems(2)
      by (simp add: check_pages.simps [of _ _ _ sz _ _ sz] report_run_def)
  next
    case True
    define c where "c = chunk_size_at addr sz pos"
    have dec: "unat (sz - (pos + c)) < unat (sz - pos)"
      unfolding c_def using True by (rule check_pages_decreases)
    have le: "pos + c \<le> sz"
      unfolding c_def using chunk_next [OF True] by simp
    obtain p where p: "kmsan_get_metadata E st (addr + pos) False = Inr p"
      using kmsan_get_metadata_shadow_total by blast
    show ?thesis
    proof (cases "p = 0")
      case pz: True
      let ?s1 = "(report_run addr sz ua reason (pos - 1) s)\<lparr>cur_origin := 0, cur_off_start := - 1\<rparr>"
      have "cur_origin ?s1 = 0" and "emitted ?s1 = emitted s"
        using less.prems(2) by (simp_all add: report_run_def)
      with less.hyps [OF dec le, of ?s1] show ?thesis
        using True p pz by (simp add: check_pages.simps [of _ _ _ sz _ _ pos] Let_def c_def)
    next
      case pnz: False
      have "\<exists>s2. check_chunk E st addr sz ua reason pos p (unat c) 0 s = Inr s2 \<and>
                 cur_origin s2 = 0 \<and> emitted s2 = emitted s"
        using q [OF True p pnz] less.prems(2) unfolding c_def by (intro check_chunk_quiet)
      then obtain s2 where "check_chunk E st addr sz ua reason pos p (unat c) 0 s = Inr s2"
        and "cur_origin s2 = 0" and "emitted s2 = emitted s"
        by blast
      with less.hyps [OF dec le, of s2] show ?thesis
        using True p pnz by (simp add: check_pages.simps [of _ _ _ sz _ _ pos] Let_def c_def)
    qed
  qed
qed

lemma check_memory_quiet:
  assumes "kmsan_metadata_is_contiguous E st addr sz = Inr True"
    and "\<And>pos p j. pos < sz \<Longrightarrow> kmsan_get_metadata E st (addr + pos) False = Inr p \<Longrightarrow>
           p \<noteq> 0 \<Longrightarrow> j < unat (chunk_size_at addr sz pos) \<Longrightarrow>
           shadow_mem st (p + word_of_nat j) = 0 \<or>
           (\<exists>q. kmsan_get_metadata E st (addr + pos + word_of_nat j) True = Inr q \<and>
                q \<noteq> 0 \<and> origin_mem st q = 0)"
  shows "kmsan_internal_check_memory E st addr sz ua reason = Inr []"
proof -
  have "\<exists>s'. check_pages E st addr sz ua reason 0
               \<lparr>cur_origin = 0, cur_off_start = - 1, emitted = []\<rparr> = Inr s' \<and>
             emitted s' = emitted \<lparr>cur_origin = 0, cur_off_start = - 1, emitted = []\<rparr>"
    using assms(2) by (intro check_pages_quiet) simp_all
  then show ?thesis
    using assms(1) by (auto simp: kmsan_internal_check_memory_def)
qed

section \<open>Copying from untracked memory\<close>

lemma offset_in_range:
  assumes "pos < sz" and "j < unat (chunk_size_at addr sz pos)"
  shows "pos + word_of_nat j < sz"
  using chunk_index [OF assms] by (simp add: word_less_nat_alt)

text \<open>
  C6: when the destination has a shadow and the source has none,
  \<^verbatim>\<open>kmsan_memmove_metadata(dst, src, n)\<close> fills the \<open>n\<close> shadow bytes of the destination
  with zero and leaves the origin memory as it was. If the \<open>n\<close> bytes of the destination
  have their shadow in one contiguous run (invariant I1), a check of the destination
  range then emits no report.
\<close>

theorem memmove_from_untracked_clears:
  assumes d: "kmsan_get_metadata E st dst False = Inr sd" and nz: "sd \<noteq> 0"
    and c: "kmsan_metadata_is_contiguous E st dst n = Inr True"
    and s: "kmsan_get_metadata E st src False = Inr 0"
    and flat: "\<forall>k<n. kmsan_get_metadata E st (dst + k) False = Inr (sd + k)"
  shows "\<exists>st'. kmsan_memmove_metadata E st dst src n = Inr st' \<and>
              (\<forall>k<n. shadow_mem st' (sd + k) = 0) \<and>
              origin_mem st' = origin_mem st \<and>
              kmsan_internal_check_memory E st' dst n ua reason = Inr []"
proof -
  define st' where "st' = st\<lparr>shadow_mem := memset (shadow_mem st) sd 0 n\<rparr>"
  have run: "kmsan_memmove_metadata E st dst src n = Inr st'"
    using d nz c s by (simp add: kmsan_memmove_metadata_def st'_def)
  have zero: "shadow_mem st' (sd + k) = 0" if "k < n" for k
    using that by (simp add: st'_def memset_def)
  have "kmsan_internal_check_memory E st' dst n ua reason = Inr []"
  proof (rule check_memory_quiet)
    show "kmsan_metadata_is_contiguous E st' dst n = Inr True"
      using c by (simp add: st'_def)
  next
    fix pos p j
    assume pos: "pos < n" and p: "kmsan_get_metadata E st' (dst + pos) False = Inr p"
      and j: "j < unat (chunk_size_at dst n pos)"
    have "p = sd + pos"
      using p flat pos by (simp add: st'_def)
    moreover have "pos + word_of_nat j < n"
      using pos j by (rule offset_in_range)
    ultimately have "shadow_mem st' (p + word_of_nat j) = 0"
      using zero [of "pos + word_of_nat j"] by (simp add: add.assoc)
    then show "shadow_mem st' (p + word_of_nat j) = 0 \<or>
               (\<exists>q. kmsan_get_metadata E st' (dst + pos + word_of_nat j) True = Inr q \<and>
                    q \<noteq> 0 \<and> origin_mem st' q = 0)"
      by simp
  qed
  then show ?thesis
    using run zero by (auto simp: st'_def)
qed

lemma u64_less_8_cases:
  assumes "(k :: u64) < 8"
  shows "k = 0 \<or> k = 1 \<or> k = 2 \<or> k = 3 \<or> k = 4 \<or> k = 5 \<or> k = 6 \<or> k = 7"
proof -
  have "unat k < 8"
    using assms by (simp add: word_less_nat_alt)
  then have "unat k = 0 \<or> unat k = 1 \<or> unat k = 2 \<or> unat k = 3 \<or> unat k = 4 \<or>
             unat k = 5 \<or> unat k = 6 \<or> unat k = 7"
    by arith
  then show ?thesis
    by (simp add: word_unat_eq_iff)
qed

lemmas demo_resolver_defs =
  kmsan_get_metadata_def demo_env_def demo_state_def demo_addr_def
  kmsan_internal_is_vmalloc_addr_def kmsan_internal_is_module_addr_def
  get_cea_meta_or_null_def virt_to_page_or_null_def kmsan_virt_addr_valid_def
  kmsan_phys_addr_valid_def page_has_metadata_def shadow_ptr_for_def origin_ptr_for_def
  PAGE_SIZE_def PAGE_SHIFT_def Let_def IS_ALIGNED_def KMSAN_ORIGIN_SIZE_def

lemma demo_shadow_flat:
  "\<forall>k<8. kmsan_get_metadata (demo_env cap) demo_state (demo_addr + k) False
            = Inr (0xffff888000200000 + k) \<and> 0xffff888000200000 + k \<noteq> 0"
proof (intro allI impI)
  fix k :: u64
  assume "k < 8"
  then have "k = 0 \<or> k = 1 \<or> k = 2 \<or> k = 3 \<or> k = 4 \<or> k = 5 \<or> k = 6 \<or> k = 7"
    by (rule u64_less_8_cases)
  then show "kmsan_get_metadata (demo_env cap) demo_state (demo_addr + k) False
               = Inr (0xffff888000200000 + k) \<and> 0xffff888000200000 + k \<noteq> 0"
    by (elim disjE) (simp_all add: demo_resolver_defs)
qed

lemma demo_contiguous_small [simp]:
  "kmsan_metadata_is_contiguous (demo_env cap) demo_state demo_addr 4 = Inr True"
  "kmsan_metadata_is_contiguous (demo_env cap) demo_state (demo_addr + 2) 3 = Inr True"
  by (simp_all add: kmsan_metadata_is_contiguous_def ALIGN_DOWN_def PAGE_SIZE_def demo_addr_def)

theorem memmove_from_untracked_clears_witness:
  "\<exists>st'. kmsan_memmove_metadata (demo_env None) demo_poisoned demo_addr (demo_addr + 0x1000) 4
           = Inr st' \<and>
         shadow_mem demo_poisoned 0xffff888000200000 = 0xFF \<and>
         shadow_mem st' 0xffff888000200000 = 0 \<and>
         kmsan_internal_check_memory (demo_env None) st' demo_addr 4 0 0 = Inr []"
proof -
  have flat: "\<forall>k<4. kmsan_get_metadata (demo_env None) demo_poisoned (demo_addr + k) False
                      = Inr (0xffff888000200000 + k)"
  proof (intro allI impI)
    fix k :: u64
    assume "k < 4"
    then have "k < 8"
      by (simp add: word_less_nat_alt)
    then show "kmsan_get_metadata (demo_env None) demo_poisoned (demo_addr + k) False
                 = Inr (0xffff888000200000 + k)"
      using demo_shadow_flat [of None] by (simp add: demo_poisoned_def)
  qed
  obtain st' where
    "kmsan_memmove_metadata (demo_env None) demo_poisoned demo_addr (demo_addr + 0x1000) 4
       = Inr st'"
    "\<forall>k<4. shadow_mem st' (0xffff888000200000 + k) = 0"
    "kmsan_internal_check_memory (demo_env None) st' demo_addr 4 0 0 = Inr []"
    using memmove_from_untracked_clears
            [where E = "demo_env None" and st = demo_poisoned and dst = demo_addr
               and src = "demo_addr + 0x1000" and n = 4 and sd = "0xffff888000200000"
               and ua = 0 and reason = 0]
          flat
    by (auto simp: demo_poisoned_def)
  moreover from this(2) have "shadow_mem st' (0xffff888000200000 + 0) = 0"
    by (rule allE [where x = 0]) simp
  moreover have "shadow_mem demo_poisoned 0xffff888000200000 = 0xFF"
    by (simp add: demo_poisoned_def memset_def)
  ultimately show ?thesis
    by auto
qed

section \<open>Poisoning a tracked range\<close>

lemma mod4_mask: "(a :: u64) mod 4 = a AND 3"
  using word_mod_2p_is_mask [of 2 a] by (simp add: mask_eq_exp_minus_1)

lemma origin_pad:
  "(if \<not> IS_ALIGNED a KMSAN_ORIGIN_SIZE then a mod KMSAN_ORIGIN_SIZE else 0) = a mod 4"
  by (simp add: IS_ALIGNED_def KMSAN_ORIGIN_SIZE_def mod4_mask)

lemma set_shadow_origin_tracked:
  assumes "kmsan_metadata_is_contiguous E st addr sz = Inr True"
    and "kmsan_get_metadata E st addr False = Inr sd" and "sd \<noteq> 0"
    and "kmsan_get_metadata E st (addr - addr mod 4) True = Inr od" and "od \<noteq> 0"
  shows "kmsan_internal_set_shadow_origin E st addr sz b h checked
           = Inr (st\<lparr>shadow_mem := memset (shadow_mem st) sd (word_of_int b) sz,
                     origin_mem := set_origins (origin_mem st) od h
                       (unat (ALIGN (sz + addr mod 4) KMSAN_ORIGIN_SIZE div KMSAN_ORIGIN_SIZE))
                       0\<rparr>)"
  using assms by (simp add: kmsan_internal_set_shadow_origin_def origin_pad Let_def)

lemma u64_less_4_cases:
  assumes "(k :: u64) < 4"
  shows "k = 0 \<or> k = 1 \<or> k = 2 \<or> k = 3"
proof -
  have "unat k < 4"
    using assms by (simp add: word_less_nat_alt)
  then have "unat k = 0 \<or> unat k = 1 \<or> unat k = 2 \<or> unat k = 3"
    by arith
  then show ?thesis
    by (simp add: word_unat_eq_iff)
qed

lemma set_origins_8:
  assumes "(pad :: u64) < 4" and "(k :: u64) < 8"
  shows "set_origins om od h
           (unat (ALIGN (8 + pad) KMSAN_ORIGIN_SIZE div KMSAN_ORIGIN_SIZE)) 0
           (od + 4 * ((pad + k) div 4)) = h"
  using u64_less_4_cases [OF assms(1)] u64_less_8_cases [OF assms(2)]
  by (elim disjE) (simp_all add: ALIGN_def KMSAN_ORIGIN_SIZE_def set_origins.simps)

section \<open>Ranges that are one poisoned run\<close>

lemma to_int_0 [simp]: "to_int 0 = 0"
  by (simp add: to_int_def)

lemma check_chunk_uniform:
  assumes h: "h \<noteq> 0"
    and u: "\<And>j. j < chunk \<Longrightarrow>
              shadow_mem st (sh + word_of_nat j) \<noteq> 0 \<and>
              (\<exists>q. kmsan_get_metadata E st (addr + pos + word_of_nat j) True = Inr q \<and>
                   q \<noteq> 0 \<and> origin_mem st q = h)"
  shows "(cur_origin s = h \<and> cur_off_start s = 0 \<and> emitted s = []) \<or>
         (pos + word_of_nat i = 0 \<and> cur_origin s = 0 \<and> emitted s = []) \<Longrightarrow>
         \<exists>s'. check_chunk E st addr sz ua reason pos sh chunk i s = Inr s' \<and>
              emitted s' = [] \<and>
              ((cur_origin s' = h \<and> cur_off_start s' = 0) \<or> (chunk \<le> i \<and> s' = s))"
proof (induction "chunk - i" arbitrary: i s)
  case 0
  then show ?case
    by (auto simp: check_chunk.simps [of _ _ _ _ _ _ _ _ chunk i])
next
  case (Suc d)
  then have i: "i < chunk" and d: "d = chunk - (i + 1)"
    by simp_all
  from u [OF i] obtain q where sh: "shadow_mem st (sh + word_of_nat i) \<noteq> 0"
    and q: "kmsan_get_metadata E st (addr + pos + word_of_nat i) True = Inr q"
    and qz: "q \<noteq> 0" and qo: "origin_mem st q = h"
    by auto
  define s1 where "s1 = (if cur_origin s = h then s
    else (report_run addr sz ua reason (pos + word_of_nat i - 1) s)
           \<lparr>cur_origin := h, cur_off_start := to_int (pos + word_of_nat i)\<rparr>)"
  have step: "check_chunk E st addr sz ua reason pos sh chunk i s
                = check_chunk E st addr sz ua reason pos sh chunk (i + 1) s1"
    using i sh q qz qo
    by (simp add: check_chunk.simps [of _ _ _ _ _ _ _ _ chunk i] s1_def)
  have a: "cur_origin s1 = h \<and> cur_off_start s1 = 0 \<and> emitted s1 = []"
    using Suc.prems h by (auto simp: s1_def report_run_def)
  then obtain s' where "check_chunk E st addr sz ua reason pos sh chunk (i + 1) s1 = Inr s'"
    and "emitted s' = []"
    and "(cur_origin s' = h \<and> cur_off_start s' = 0) \<or> (chunk \<le> i + 1 \<and> s' = s1)"
    using Suc.hyps(1) [OF d, of s1] by blast
  then show ?case
    using step a by auto
qed

lemma check_pages_uniform:
  assumes h: "h \<noteq> 0"
    and u: "\<And>pos. pos < sz \<Longrightarrow>
              \<exists>p. kmsan_get_metadata E st (addr + pos) False = Inr p \<and> p \<noteq> 0 \<and>
                  (\<forall>j < unat (chunk_size_at addr sz pos).
                     shadow_mem st (p + word_of_nat j) \<noteq> 0 \<and>
                     (\<exists>q. kmsan_get_metadata E st (addr + pos + word_of_nat j) True = Inr q \<and>
                          q \<noteq> 0 \<and> origin_mem st q = h))"
  shows "pos \<le> sz \<Longrightarrow>
         (cur_origin s = h \<and> cur_off_start s = 0 \<and> emitted s = []) \<or>
         (pos = 0 \<and> pos < sz \<and> cur_origin s = 0 \<and> emitted s = []) \<Longrightarrow>
         \<exists>s'. check_pages E st addr sz ua reason pos s = Inr s' \<and>
              emitted s' = [\<lparr>rep_origin = h, rep_address = addr, rep_size = sz,
                             rep_off_first = 0, rep_off_last = to_int (sz - 1),
                             rep_user_addr = ua, rep_reason = reason\<rparr>]"
proof (induction "unat (sz - pos)" arbitrary: pos s rule: less_induct)
  case less
  show ?case
  proof (cases "pos < sz")
    case False
    then have "pos = sz"
      using less.prems(1) by simp
    then show ?thesis
      using less.prems(2) h
      by (auto simp: check_pages.simps [of _ _ _ sz _ _ sz] report_run_def)
  next
    case True
    define c where "c = chunk_size_at addr sz pos"
    have dec: "unat (sz - (pos + c)) < unat (sz - pos)"
      unfolding c_def using True by (rule check_pages_decreases)
    have le: "pos + c \<le> sz"
      unfolding c_def using chunk_next [OF True] by simp
    have cpos: "0 < unat c"
      unfolding c_def using chunk_size_at_bounds(1) [OF True]
      by (simp add: unat_gt_0 word_neq_0_conv)
    from u [OF True] obtain p where p: "kmsan_get_metadata E st (addr + pos) False = Inr p"
      and pnz: "p \<noteq> 0"
      and bytes: "\<And>j. j < unat c \<Longrightarrow>
                    shadow_mem st (p + word_of_nat j) \<noteq> 0 \<and>
                    (\<exists>q. kmsan_get_metadata E st (addr + pos + word_of_nat j) True = Inr q \<and>
                         q \<noteq> 0 \<and> origin_mem st q = h)"
      unfolding c_def by blast
    have "(cur_origin s = h \<and> cur_off_start s = 0 \<and> emitted s = []) \<or>
          (pos + word_of_nat 0 = 0 \<and> cur_origin s = 0 \<and> emitted s = [])"
      using less.prems(2) by auto
    with check_chunk_uniform [OF h bytes, where i = 0 and s = s and sz = sz and ua = ua
        and reason = reason]
    obtain s2 where ck: "check_chunk E st addr sz ua reason pos p (unat c) 0 s = Inr s2"
      and "emitted s2 = []"
      and "(cur_origin s2 = h \<and> cur_off_start s2 = 0) \<or> (unat c \<le> 0 \<and> s2 = s)"
      by blast
    then have a: "cur_origin s2 = h \<and> cur_off_start s2 = 0 \<and> emitted s2 = []"
      using cpos by auto
    from less.hyps [OF dec le, of s2] a show ?thesis
      using True p pnz ck
      by (simp add: check_pages.simps [of _ _ _ sz _ _ pos] Let_def c_def)
  qed
qed

lemma check_memory_uniform:
  assumes "sz \<noteq> 0" and "kmsan_metadata_is_contiguous E st addr sz = Inr True" and "h \<noteq> 0"
    and "\<And>pos. pos < sz \<Longrightarrow>
           \<exists>p. kmsan_get_metadata E st (addr + pos) False = Inr p \<and> p \<noteq> 0 \<and>
               (\<forall>j < unat (chunk_size_at addr sz pos).
                  shadow_mem st (p + word_of_nat j) \<noteq> 0 \<and>
                  (\<exists>q. kmsan_get_metadata E st (addr + pos + word_of_nat j) True = Inr q \<and>
                       q \<noteq> 0 \<and> origin_mem st q = h))"
  shows "kmsan_internal_check_memory E st addr sz ua reason
           = Inr [\<lparr>rep_origin = h, rep_address = addr, rep_size = sz,
                    rep_off_first = 0, rep_off_last = to_int (sz - 1),
                    rep_user_addr = ua, rep_reason = reason\<rparr>]"
proof -
  have "0 < sz"
    using assms(1) by (simp add: word_neq_0_conv)
  then have "\<exists>s'. check_pages E st addr sz ua reason 0
               \<lparr>cur_origin = 0, cur_off_start = - 1, emitted = []\<rparr> = Inr s' \<and>
             emitted s' = [\<lparr>rep_origin = h, rep_address = addr, rep_size = sz,
                            rep_off_first = 0, rep_off_last = to_int (sz - 1),
                            rep_user_addr = ua, rep_reason = reason\<rparr>]"
    using assms(3,4) by (intro check_pages_uniform) simp_all
  then show ?thesis
    using assms(1,2) by (auto simp: kmsan_internal_check_memory_def)
qed

section \<open>Poison, then check\<close>

lemma fresh_extra_bits_small: "kmsan_extra_bits 0 b < 2 ^ STACK_DEPOT_EXTRA_BITS"
  by (simp add: kmsan_extra_bits_def STACK_DEPOT_EXTRA_BITS_def)

text \<open>
  C7: let the eight bytes at \<open>x\<close> be tracked: their shadow is one contiguous run at
  \<open>sd\<close>, and their origin slots are the slots of the granules they lie in, in the array
  at \<open>od\<close>, which is the origin pointer of \<open>x\<close> aligned down. With a depot that keeps
  its contract, \<open>poison(x, 8)\<close> succeeds, and \<open>check(x, 8)\<close> on the state it leaves emits
  exactly one report, for the offsets 0 to 7, with a nonzero origin handle.
\<close>

theorem poison_then_check_reports_once:
  assumes depot: "stack_depot_contract E"
    and c: "kmsan_metadata_is_contiguous E st x 8 = Inr True"
    and sh: "\<forall>k<8. kmsan_get_metadata E st (x + k) False = Inr (sd + k) \<and> sd + k \<noteq> 0"
    and base: "kmsan_get_metadata E st (x - x mod 4) True = Inr od" and odz: "od \<noteq> 0"
    and og: "\<forall>k<8. kmsan_get_metadata E st (x + k) True = Inr (od + 4 * ((x mod 4 + k) div 4)) \<and>
                    od + 4 * ((x mod 4 + k) div 4) \<noteq> 0"
  shows "\<exists>st' h. kmsan_internal_poison_memory E st x 8 gfp_flags poison_flags = Inr st' \<and> h \<noteq> 0 \<and>
           kmsan_internal_check_memory E st' x 8 ua reason
             = Inr [\<lparr>rep_origin = h, rep_address = x, rep_size = 8, rep_off_first = 0,
                      rep_off_last = 7, rep_user_addr = ua, rep_reason = reason\<rparr>]"
proof -
  define eb where "eb = kmsan_extra_bits 0 (poison_flags AND KMSAN_POISON_FREE E \<noteq> 0)"
  obtain h d where save: "stack_depot_save_extra E (depot st) (cur_stack st) eb
                            (gfp_flags AND NOT (GFP_DIRECT_RECLAIM E)) = (h, d)"
    by (cases "stack_depot_save_extra E (depot st) (cur_stack st) eb
                 (gfp_flags AND NOT (GFP_DIRECT_RECLAIM E))")
  have "eb < 2 ^ STACK_DEPOT_EXTRA_BITS"
    unfolding eb_def by (rule fresh_extra_bits_small)
  then have hz: "h \<noteq> 0"
    using depot save unfolding stack_depot_contract_def by (metis fst_conv)
  define st1 where "st1 = st\<lparr>depot := d\<rparr>"
  define st' where "st' = st1\<lparr>
     shadow_mem := memset (shadow_mem st1) sd (word_of_int (- 1)) 8,
     origin_mem := set_origins (origin_mem st1) od h
       (unat (ALIGN (8 + x mod 4) KMSAN_ORIGIN_SIZE div KMSAN_ORIGIN_SIZE)) 0\<rparr>"
  have sd0: "kmsan_get_metadata E st x False = Inr sd" "sd \<noteq> 0"
    using sh by (auto dest: spec [where x = 0])
  have "kmsan_internal_set_shadow_origin E st1 x 8 (- 1) h
          (poison_flags AND KMSAN_POISON_CHECK E \<noteq> 0) = Inr st'"
    unfolding st'_def
    by (rule set_shadow_origin_tracked) (use c sd0 base odz in \<open>simp_all add: st1_def\<close>)
  then have run: "kmsan_internal_poison_memory E st x 8 gfp_flags poison_flags = Inr st'"
    using save
    by (simp add: kmsan_internal_poison_memory_def kmsan_save_stack_with_flags_def Let_def
        eb_def st1_def)
  have pad: "x mod 4 < 4"
    by (simp add: word_mod_less_divisor)
  have "kmsan_internal_check_memory E st' x 8 ua reason
          = Inr [\<lparr>rep_origin = h, rep_address = x, rep_size = 8, rep_off_first = 0,
                   rep_off_last = to_int (8 - 1), rep_user_addr = ua, rep_reason = reason\<rparr>]"
  proof (rule check_memory_uniform [OF _ _ hz])
    show "(8 :: u64) \<noteq> 0"
      by simp
    show "kmsan_metadata_is_contiguous E st' x 8 = Inr True"
      using c by (simp add: st'_def st1_def)
  next
    fix pos :: u64
    assume pos: "pos < 8"
    have "\<forall>j < unat (chunk_size_at x 8 pos).
            shadow_mem st' (sd + pos + word_of_nat j) \<noteq> 0 \<and>
            (\<exists>q. kmsan_get_metadata E st' (x + pos + word_of_nat j) True = Inr q \<and>
                 q \<noteq> 0 \<and> origin_mem st' q = h)"
    proof (intro allI impI)
      fix j
      assume "j < unat (chunk_size_at x 8 pos)"
      with pos have k: "pos + word_of_nat j < 8"
        by (rule offset_in_range)
      have "shadow_mem st' (sd + (pos + word_of_nat j)) \<noteq> 0"
        using k by (simp add: st'_def memset_def)
      moreover have "origin_mem st' (od + 4 * ((x mod 4 + (pos + word_of_nat j)) div 4)) = h"
        unfolding st'_def using set_origins_8 [OF pad k] by simp
      moreover have "kmsan_get_metadata E st' (x + (pos + word_of_nat j)) True
                       = Inr (od + 4 * ((x mod 4 + (pos + word_of_nat j)) div 4)) \<and>
                     od + 4 * ((x mod 4 + (pos + word_of_nat j)) div 4) \<noteq> 0"
        using og k by (simp add: st'_def st1_def)
      ultimately show "shadow_mem st' (sd + pos + word_of_nat j) \<noteq> 0 \<and>
            (\<exists>q. kmsan_get_metadata E st' (x + pos + word_of_nat j) True = Inr q \<and>
                 q \<noteq> 0 \<and> origin_mem st' q = h)"
        by (simp add: add.assoc)
    qed
    moreover have "kmsan_get_metadata E st' (x + pos) False = Inr (sd + pos) \<and> sd + pos \<noteq> 0"
      using sh pos by (simp add: st'_def st1_def)
    ultimately show "\<exists>p. kmsan_get_metadata E st' (x + pos) False = Inr p \<and> p \<noteq> 0 \<and>
               (\<forall>j < unat (chunk_size_at x 8 pos).
                  shadow_mem st' (p + word_of_nat j) \<noteq> 0 \<and>
                  (\<exists>q. kmsan_get_metadata E st' (x + pos + word_of_nat j) True = Inr q \<and>
                       q \<noteq> 0 \<and> origin_mem st' q = h))"
      by blast
  qed
  moreover have "to_int (8 - 1) = 7"
    by (simp add: to_int_def)
  ultimately show ?thesis
    using run hz by auto
qed

lemma demo_origin_flat:
  "\<forall>k<8. kmsan_get_metadata (demo_env cap) demo_state (demo_addr + k) True
            = Inr (0xffff888000300000 + 4 * (k div 4)) \<and>
          0xffff888000300000 + 4 * (k div 4) \<noteq> 0"
proof (intro allI impI)
  fix k :: u64
  assume "k < 8"
  then have "k = 0 \<or> k = 1 \<or> k = 2 \<or> k = 3 \<or> k = 4 \<or> k = 5 \<or> k = 6 \<or> k = 7"
    by (rule u64_less_8_cases)
  then show "kmsan_get_metadata (demo_env cap) demo_state (demo_addr + k) True
               = Inr (0xffff888000300000 + 4 * (k div 4)) \<and>
             0xffff888000300000 + 4 * (k div 4) \<noteq> 0"
    by (elim disjE) (simp_all add: demo_resolver_defs)
qed

lemma demo_addr_aligned [simp]: "demo_addr mod 4 = 0"
  by (simp add: demo_addr_def)

theorem poison_then_check_reports_once_witness:
  "\<exists>st' h. kmsan_internal_poison_memory (demo_env None) demo_state demo_addr 8 0xcc0 0 = Inr st' \<and>
     h \<noteq> 0 \<and>
     kmsan_internal_check_memory (demo_env None) st' demo_addr 8 0 0
       = Inr [\<lparr>rep_origin = h, rep_address = demo_addr, rep_size = 8, rep_off_first = 0,
                rep_off_last = 7, rep_user_addr = 0, rep_reason = 0\<rparr>]"
  using poison_then_check_reports_once
          [where E = "demo_env None" and st = demo_state and x = demo_addr
             and sd = "0xffff888000200000" and od = "0xffff888000300000"
             and gfp_flags = "0xcc0" and poison_flags = 0 and ua = 0 and reason = 0]
        demo_depot_contract demo_shadow_flat [of None] demo_origin_flat [of None]
  by simp

section \<open>Unpoisoning the middle of a poisoned block\<close>

text \<open>
  C1, as stated, fails. Eight bytes are poisoned with one origin, the three bytes at
  offset 2 are unpoisoned, and the check of the eight bytes emits no report at all,
  where the claim expects one for the offsets 0 to 1 and one for 5 to 7.
\<close>

theorem unpoison_middle_no_report:
  "(case kmsan_internal_poison_memory (demo_env None) demo_state demo_addr 8 0xcc0 0 of
      Inl e \<Rightarrow> Inl e
    | Inr st1 \<Rightarrow>
        (case kmsan_internal_unpoison_memory (demo_env None) st1 (demo_addr + 2) 3 False of
           Inl e \<Rightarrow> Inl e
         | Inr st2 \<Rightarrow> kmsan_internal_check_memory (demo_env None) st2 demo_addr 8 0 0))
     = Inr []"
  by code_simp

lemma u64_2_le_1 [simp]: "\<not> (2 :: u64) \<le> 1"
  by (simp add: word_le_nat_alt)

lemma aligned_plus_2:
  assumes "(x :: u64) mod 4 = 0"
  shows "(x + 2) mod 4 = 2"
proof -
  have "unat (x mod 4) = 0"
    using assms by simp
  then have x: "unat x mod 4 = 0"
    by (simp add: unat_mod)
  have "unat (x + 2) = (unat x + 2) mod 2 ^ 64"
    by (simp add: unat_word_ariths)
  then have "unat (x + 2) mod 4 = (unat x + 2) mod 2 ^ 64 mod 4"
    by simp
  also have "\<dots> = (unat x + 2) mod 4"
    by (rule mod_mod_cancel) simp
  also have "\<dots> = 2"
    using x by presburger
  finally have "unat ((x + 2) mod 4) = 2"
    by (simp add: unat_mod)
  then show ?thesis
    by (simp add: word_unat_eq_iff)
qed

text \<open>
  C1, amended: for a granule-aligned tracked block of eight bytes (in particular one
  that is poison-filled with a single origin \<open>O1\<close>), \<open>unpoison\<close> on the three bytes at
  offset 2 clears the shadow of these three bytes, leaves the shadow of the other five as
  it was, and writes handle 0 on both origin granules, since each of them holds one of
  the three bytes. The check of the eight bytes then emits no report: the bytes at the
  offsets 0, 1, 5, 6 and 7 are still poisoned, but their granules hold handle 0.
\<close>

theorem unpoison_middle_clears_origins:
  assumes al: "x mod 4 = 0"
    and c8: "kmsan_metadata_is_contiguous E st x 8 = Inr True"
    and c3: "kmsan_metadata_is_contiguous E st (x + 2) 3 = Inr True"
    and sh: "\<forall>k<8. kmsan_get_metadata E st (x + k) False = Inr (sd + k) \<and> sd + k \<noteq> 0"
    and og: "\<forall>k<8. kmsan_get_metadata E st (x + k) True = Inr (od + 4 * (k div 4)) \<and>
                    od + 4 * (k div 4) \<noteq> 0"
  shows "\<exists>st'. kmsan_internal_unpoison_memory E st (x + 2) 3 checked = Inr st' \<and>
           (\<forall>k<8. shadow_mem st' (sd + k)
                     = (if 2 \<le> k \<and> k \<le> 4 then 0 else shadow_mem st (sd + k))) \<and>
           origin_mem st' od = 0 \<and> origin_mem st' (od + 4) = 0 \<and>
           kmsan_internal_check_memory E st' x 8 ua reason = Inr []"
proof -
  define st' where "st' = st\<lparr>
     shadow_mem := memset (shadow_mem st) (sd + 2) 0 3,
     origin_mem := (origin_mem st)(od := 0, od + 4 := 0)\<rparr>"
  have pad: "(x + 2) mod 4 = 2"
    using al by (rule aligned_plus_2)
  have s2: "kmsan_get_metadata E st (x + 2) False = Inr (sd + 2)" "sd + 2 \<noteq> 0"
    using sh by (auto dest: spec [where x = 2])
  have o0: "kmsan_get_metadata E st x True = Inr od" "od \<noteq> 0"
    using og by (auto dest: spec [where x = 0])
  have r0: "kmsan_internal_set_shadow_origin E st (x + 2) 3 0 0 checked
          = Inr (st\<lparr>shadow_mem := memset (shadow_mem st) (sd + 2) (word_of_int 0) 3,
                    origin_mem := set_origins (origin_mem st) od 0
                      (unat (ALIGN (3 + (x + 2) mod 4) KMSAN_ORIGIN_SIZE div KMSAN_ORIGIN_SIZE))
                      0\<rparr>)"
    by (rule set_shadow_origin_tracked) (use c3 s2 o0 pad in simp_all)
  have n2: "unat (ALIGN (3 + (x + 2) mod 4) KMSAN_ORIGIN_SIZE div KMSAN_ORIGIN_SIZE) = 2"
    by (simp add: pad ALIGN_def KMSAN_ORIGIN_SIZE_def)
  have so: "set_origins (origin_mem st) od 0 2 0 = (origin_mem st)(od := 0, od + 4 := 0)"
    by (simp add: set_origins.simps)
  have run: "kmsan_internal_unpoison_memory E st (x + 2) 3 checked = Inr st'"
    unfolding kmsan_internal_unpoison_memory_def r0 n2 so st'_def by simp
  have shadow: "shadow_mem st' (sd + k)
                  = (if 2 \<le> k \<and> k \<le> 4 then 0 else shadow_mem st (sd + k))" if "k < 8" for k
    using u64_less_8_cases [OF that]
    by (elim disjE) (simp_all add: st'_def memset_def)
  have origins: "origin_mem st' od = 0" "origin_mem st' (od + 4) = 0"
    by (simp_all add: st'_def)
  have "kmsan_internal_check_memory E st' x 8 ua reason = Inr []"
  proof (rule check_memory_quiet)
    show "kmsan_metadata_is_contiguous E st' x 8 = Inr True"
      using c8 by (simp add: st'_def)
  next
    fix pos :: u64 and p j
    assume pos: "pos < 8" and j: "j < unat (chunk_size_at x 8 pos)"
    then have k: "pos + word_of_nat j < 8"
      by (rule offset_in_range)
    then have q: "kmsan_get_metadata E st' (x + (pos + word_of_nat j)) True
                    = Inr (od + 4 * ((pos + word_of_nat j) div 4)) \<and>
                  od + 4 * ((pos + word_of_nat j) div 4) \<noteq> 0"
      using og by (simp add: st'_def)
    have "origin_mem st' (od + 4 * ((pos + word_of_nat j) div 4)) = 0"
      using u64_less_8_cases [OF k] origins by (elim disjE) simp_all
    with q show "shadow_mem st' (p + word_of_nat j) = 0 \<or>
               (\<exists>q. kmsan_get_metadata E st' (x + pos + word_of_nat j) True = Inr q \<and>
                    q \<noteq> 0 \<and> origin_mem st' q = 0)"
      by (simp add: add.assoc)
  qed
  then show ?thesis
    using run shadow origins by blast
qed

lemma demo_poisoned_meta [simp]:
  "kmsan_get_metadata E demo_poisoned = kmsan_get_metadata E demo_state"
  "kmsan_metadata_is_contiguous E demo_poisoned = kmsan_metadata_is_contiguous E demo_state"
  by (simp_all add: demo_poisoned_def)

theorem unpoison_middle_clears_origins_witness:
  "\<exists>st'. kmsan_internal_unpoison_memory (demo_env None) demo_poisoned (demo_addr + 2) 3 False
           = Inr st' \<and>
         shadow_mem st' 0xffff888000200001 = 0xFF \<and> shadow_mem st' 0xffff888000200003 = 0 \<and>
         origin_mem demo_poisoned 0xffff888000300000 = 0x04000000 \<and>
         origin_mem st' 0xffff888000300000 = 0 \<and>
         kmsan_internal_check_memory (demo_env None) st' demo_addr 8 0 0 = Inr []"
proof -
  obtain st' where
    run: "kmsan_internal_unpoison_memory (demo_env None) demo_poisoned (demo_addr + 2) 3 False
            = Inr st'"
    and sh: "\<forall>k<8. shadow_mem st' (0xffff888000200000 + k)
               = (if 2 \<le> k \<and> k \<le> 4 then 0 else shadow_mem demo_poisoned (0xffff888000200000 + k))"
    and og: "origin_mem st' 0xffff888000300000 = 0"
    and ck: "kmsan_internal_check_memory (demo_env None) st' demo_addr 8 0 0 = Inr []"
    using unpoison_middle_clears_origins
            [where E = "demo_env None" and st = demo_poisoned and x = demo_addr
               and sd = "0xffff888000200000" and od = "0xffff888000300000"
               and checked = False and ua = 0 and reason = 0]
          demo_shadow_flat [of None] demo_origin_flat [of None]
    by auto
  have "shadow_mem st' (0xffff888000200000 + 1) = shadow_mem demo_poisoned (0xffff888000200000 + 1)"
    using sh [rule_format, of 1] by simp
  moreover have "shadow_mem st' (0xffff888000200000 + 3) = 0"
    using sh [rule_format, of 3] by simp
  moreover have "shadow_mem demo_poisoned (0xffff888000200000 + 1) = 0xFF"
    "origin_mem demo_poisoned 0xffff888000300000 = 0x04000000"
    by (simp_all add: demo_poisoned_def memset_def)
  ultimately show ?thesis
    using run og ck by auto
qed

section \<open>The free hooks\<close>

text \<open>
  C5, as stated, fails: a slab cache with \<^verbatim>\<open>SLAB_POISON\<close> is neither RCU-typesafe nor has
  it a constructor, and still \<^verbatim>\<open>kmsan_slab_free\<close> leaves the metadata of the freed object
  as it was: the object is not re-poisoned.
\<close>

theorem slab_free_skips_poisoned_cache:
  "flags \<lparr>ctor = 0, flags = 0x800, object_size = 8\<rparr> AND SLAB_TYPESAFE_BY_RCU (demo_env None) = 0 \<and>
   ctor \<lparr>ctor = 0, flags = 0x800, object_size = 8\<rparr> = 0 \<and>
   kmsan_ready demo_state \<and> \<not> kmsan_in_runtime demo_state \<and>
   kmsan_get_metadata (demo_env None) demo_state demo_addr False = Inr 0xffff888000200000 \<and>
   kmsan_slab_free (demo_env None) demo_state \<lparr>ctor = 0, flags = 0x800, object_size = 8\<rparr>
     demo_addr = Inr demo_state \<and>
   shadow_mem demo_state 0xffff888000200000 = 0"
  by (simp add: kmsan_slab_free_def kmsan_in_runtime_def)
     (simp add: demo_env_def demo_state_def)

lemma poison_memory_tracked:
  assumes "kmsan_metadata_is_contiguous E st addr sz = Inr True"
    and "kmsan_get_metadata E st addr False = Inr sd" and "sd \<noteq> 0"
    and "kmsan_get_metadata E st (addr - addr mod 4) True = Inr od" and "od \<noteq> 0"
  shows "\<exists>st'. kmsan_internal_poison_memory E st addr sz gfp_flags poison_flags = Inr st' \<and>
              (\<forall>k. k < sz \<longrightarrow> shadow_mem st' (sd + k) = 0xFF) \<and>
              ctx_in_runtime st' = ctx_in_runtime st \<and> kmsan_ready st' = kmsan_ready st"
proof -
  define eb where "eb = kmsan_extra_bits 0 (poison_flags AND KMSAN_POISON_FREE E \<noteq> 0)"
  obtain h d where save: "stack_depot_save_extra E (depot st) (cur_stack st) eb
                            (gfp_flags AND NOT (GFP_DIRECT_RECLAIM E)) = (h, d)"
    by (cases "stack_depot_save_extra E (depot st) (cur_stack st) eb
                 (gfp_flags AND NOT (GFP_DIRECT_RECLAIM E))")
  define st1 where "st1 = st\<lparr>depot := d\<rparr>"
  define st' where "st' = st1\<lparr>
     shadow_mem := memset (shadow_mem st1) sd (word_of_int (- 1)) sz,
     origin_mem := set_origins (origin_mem st1) od h
       (unat (ALIGN (sz + addr mod 4) KMSAN_ORIGIN_SIZE div KMSAN_ORIGIN_SIZE)) 0\<rparr>"
  have "kmsan_internal_set_shadow_origin E st1 addr sz (- 1) h
          (poison_flags AND KMSAN_POISON_CHECK E \<noteq> 0) = Inr st'"
    unfolding st'_def
    by (rule set_shadow_origin_tracked) (use assms in \<open>simp_all add: st1_def\<close>)
  then have "kmsan_internal_poison_memory E st addr sz gfp_flags poison_flags = Inr st'"
    using save
    by (simp add: kmsan_internal_poison_memory_def kmsan_save_stack_with_flags_def Let_def
        eb_def st1_def)
  moreover have "\<forall>k. k < sz \<longrightarrow> shadow_mem st' (sd + k) = 0xFF"
    by (simp add: st'_def memset_def)
  moreover have "ctx_in_runtime st' = ctx_in_runtime st" "kmsan_ready st' = kmsan_ready st"
    by (simp_all add: st'_def st1_def)
  ultimately show ?thesis
    by blast
qed

text \<open>
  C5, amended, for the two hooks that do re-poison. When the subsystem is not ready or
  the context is inside the runtime, \<^verbatim>\<open>kmsan_slab_free\<close> and \<^verbatim>\<open>kmsan_kfree_large\<close> leave the
  state as it is. \<^verbatim>\<open>kmsan_slab_free\<close> also leaves it as it is when the cache has
  \<^verbatim>\<open>SLAB_TYPESAFE_BY_RCU\<close> or \<^verbatim>\<open>SLAB_POISON\<close> among its flags, or has a constructor.
  Otherwise the freed block, when it is tracked, is poisoned again: every shadow byte of
  the object (of the whole compound page for \<^verbatim>\<open>kmsan_kfree_large\<close>) becomes \<open>0xFF\<close>, and
  the re-entrancy counter is back at its value.
\<close>

theorem free_hooks_repoison:
  "(\<not> kmsan_ready st \<or> kmsan_in_runtime st \<longrightarrow>
      kmsan_slab_free E st s object = Inr st \<and> kmsan_kfree_large E st object = Inr st) \<and>
   (flags s AND (SLAB_TYPESAFE_BY_RCU E OR SLAB_POISON E) \<noteq> 0 \<or> ctor s \<noteq> 0 \<longrightarrow>
      kmsan_slab_free E st s object = Inr st) \<and>
   (kmsan_ready st \<and> \<not> kmsan_in_runtime st \<and>
    flags s AND (SLAB_TYPESAFE_BY_RCU E OR SLAB_POISON E) = 0 \<and> ctor s = 0 \<and>
    kmsan_metadata_is_contiguous E st object (ucast (object_size s)) = Inr True \<and>
    kmsan_get_metadata E st object False = Inr sd \<and> sd \<noteq> 0 \<and>
    kmsan_get_metadata E st (object - object mod 4) True = Inr od \<and> od \<noteq> 0 \<longrightarrow>
      (\<exists>st'. kmsan_slab_free E st s object = Inr st' \<and>
             (\<forall>k < ucast (object_size s). shadow_mem st' (sd + k) = 0xFF) \<and>
             ctx_in_runtime st' = ctx_in_runtime st)) \<and>
   (kmsan_ready st \<and> \<not> kmsan_in_runtime st \<and>
    object = page_address E (virt_to_head_page E object) \<and>
    kmsan_metadata_is_contiguous E st object
      (push_bit (compound_order E (virt_to_head_page E object)) PAGE_SIZE) = Inr True \<and>
    kmsan_get_metadata E st object False = Inr sd \<and> sd \<noteq> 0 \<and>
    kmsan_get_metadata E st (object - object mod 4) True = Inr od \<and> od \<noteq> 0 \<longrightarrow>
      (\<exists>st'. kmsan_kfree_large E st object = Inr st' \<and>
             (\<forall>k < push_bit (compound_order E (virt_to_head_page E object)) PAGE_SIZE.
                shadow_mem st' (sd + k) = 0xFF) \<and>
             ctx_in_runtime st' = ctx_in_runtime st))"
proof (intro conjI impI)
  assume "\<not> kmsan_ready st \<or> kmsan_in_runtime st"
  then show "kmsan_slab_free E st s object = Inr st" "kmsan_kfree_large E st object = Inr st"
    by (auto simp: kmsan_slab_free_def kmsan_kfree_large_def)
next
  assume "flags s AND (SLAB_TYPESAFE_BY_RCU E OR SLAB_POISON E) \<noteq> 0 \<or> ctor s \<noteq> 0"
  then show "kmsan_slab_free E st s object = Inr st"
    by (auto simp: kmsan_slab_free_def)
next
  assume a: "kmsan_ready st \<and> \<not> kmsan_in_runtime st \<and>
    flags s AND (SLAB_TYPESAFE_BY_RCU E OR SLAB_POISON E) = 0 \<and> ctor s = 0 \<and>
    kmsan_metadata_is_contiguous E st object (ucast (object_size s)) = Inr True \<and>
    kmsan_get_metadata E st object False = Inr sd \<and> sd \<noteq> 0 \<and>
    kmsan_get_metadata E st (object - object mod 4) True = Inr od \<and> od \<noteq> 0"
  have "\<exists>st1. kmsan_internal_poison_memory E (kmsan_enter_runtime st) object
       (ucast (object_size s)) (GFP_KERNEL E) (KMSAN_POISON_CHECK E OR KMSAN_POISON_FREE E)
         = Inr st1 \<and>
       (\<forall>k. k < ucast (object_size s) \<longrightarrow> shadow_mem st1 (sd + k) = 0xFF) \<and>
       ctx_in_runtime st1 = ctx_in_runtime (kmsan_enter_runtime st) \<and>
       kmsan_ready st1 = kmsan_ready (kmsan_enter_runtime st)"
    by (rule poison_memory_tracked [where od = od])
       (use a in \<open>simp_all add: kmsan_enter_runtime_def\<close>)
  then obtain st1 where
    "kmsan_internal_poison_memory E (kmsan_enter_runtime st) object (ucast (object_size s))
       (GFP_KERNEL E) (KMSAN_POISON_CHECK E OR KMSAN_POISON_FREE E) = Inr st1"
    "\<forall>k < ucast (object_size s). shadow_mem st1 (sd + k) = 0xFF"
    "ctx_in_runtime st1 = ctx_in_runtime (kmsan_enter_runtime st)"
    by blast
  then show "\<exists>st'. kmsan_slab_free E st s object = Inr st' \<and>
             (\<forall>k < ucast (object_size s). shadow_mem st' (sd + k) = 0xFF) \<and>
             ctx_in_runtime st' = ctx_in_runtime st"
    using a
    by (auto simp: kmsan_slab_free_def kmsan_leave_runtime_def kmsan_enter_runtime_def)
next
  let ?sz = "push_bit (compound_order E (virt_to_head_page E object)) PAGE_SIZE"
  assume a: "kmsan_ready st \<and> \<not> kmsan_in_runtime st \<and>
    object = page_address E (virt_to_head_page E object) \<and>
    kmsan_metadata_is_contiguous E st object ?sz = Inr True \<and>
    kmsan_get_metadata E st object False = Inr sd \<and> sd \<noteq> 0 \<and>
    kmsan_get_metadata E st (object - object mod 4) True = Inr od \<and> od \<noteq> 0"
  have "\<exists>st1. kmsan_internal_poison_memory E (kmsan_enter_runtime st) object ?sz
       (GFP_KERNEL E) (KMSAN_POISON_CHECK E OR KMSAN_POISON_FREE E) = Inr st1 \<and>
       (\<forall>k. k < ?sz \<longrightarrow> shadow_mem st1 (sd + k) = 0xFF) \<and>
       ctx_in_runtime st1 = ctx_in_runtime (kmsan_enter_runtime st) \<and>
       kmsan_ready st1 = kmsan_ready (kmsan_enter_runtime st)"
    by (rule poison_memory_tracked [where od = od])
       (use a in \<open>simp_all add: kmsan_enter_runtime_def\<close>)
  then obtain st1 where
    "kmsan_internal_poison_memory E (kmsan_enter_runtime st) object ?sz
       (GFP_KERNEL E) (KMSAN_POISON_CHECK E OR KMSAN_POISON_FREE E) = Inr st1"
    "\<forall>k < ?sz. shadow_mem st1 (sd + k) = 0xFF"
    "ctx_in_runtime st1 = ctx_in_runtime (kmsan_enter_runtime st)"
    by blast
  then show "\<exists>st'. kmsan_kfree_large E st object = Inr st' \<and>
             (\<forall>k < ?sz. shadow_mem st' (sd + k) = 0xFF) \<and>
             ctx_in_runtime st' = ctx_in_runtime st"
    using a
    by (auto simp: kmsan_kfree_large_def Let_def kmsan_leave_runtime_def
        kmsan_enter_runtime_def)
qed

theorem free_hooks_repoison_witness:
  "kmsan_slab_free (demo_env None) (demo_state\<lparr>kmsan_ready := False\<rparr>)
     \<lparr>ctor = 0, flags = 0, object_size = 8\<rparr> demo_addr = Inr (demo_state\<lparr>kmsan_ready := False\<rparr>) \<and>
   kmsan_slab_free (demo_env None) demo_state \<lparr>ctor = 0, flags = 0x80000, object_size = 8\<rparr>
     demo_addr = Inr demo_state \<and>
   (\<exists>st'. kmsan_slab_free (demo_env None) demo_state \<lparr>ctor = 0, flags = 0, object_size = 8\<rparr>
            demo_addr = Inr st' \<and>
          shadow_mem demo_state 0xffff888000200007 = 0 \<and>
          shadow_mem st' 0xffff888000200007 = 0xFF) \<and>
   (\<exists>st'. kmsan_kfree_large (demo_env None) demo_state demo_addr = Inr st' \<and>
          shadow_mem st' 0xffff888000200fff = 0xFF)"
proof -
  note T = free_hooks_repoison [where E = "demo_env None" and object = demo_addr
      and sd = "0xffff888000200000" and od = "0xffff888000300000"]
  have ready: "kmsan_ready demo_state" "\<not> kmsan_in_runtime demo_state"
    by (simp_all add: demo_state_def kmsan_in_runtime_def)
  have fl: "SLAB_TYPESAFE_BY_RCU (demo_env None) OR SLAB_POISON (demo_env None) = 0x80800"
    by (simp add: demo_env_def)
  have a: "kmsan_slab_free (demo_env None) (demo_state\<lparr>kmsan_ready := False\<rparr>)
             \<lparr>ctor = 0, flags = 0, object_size = 8\<rparr> demo_addr
             = Inr (demo_state\<lparr>kmsan_ready := False\<rparr>)"
    using T [where st = "demo_state\<lparr>kmsan_ready := False\<rparr>"
               and s = "\<lparr>ctor = 0, flags = 0, object_size = 8\<rparr>"]
    by simp
  have b: "kmsan_slab_free (demo_env None) demo_state
             \<lparr>ctor = 0, flags = 0x80000, object_size = 8\<rparr> demo_addr = Inr demo_state"
    using T [where st = demo_state and s = "\<lparr>ctor = 0, flags = 0x80000, object_size = 8\<rparr>"] fl
    by simp
  obtain st1 where c1: "kmsan_slab_free (demo_env None) demo_state
             \<lparr>ctor = 0, flags = 0, object_size = 8\<rparr> demo_addr = Inr st1"
    and c2: "\<forall>k<8. shadow_mem st1 (0xffff888000200000 + k) = 0xFF"
    using T [where st = demo_state and s = "\<lparr>ctor = 0, flags = 0, object_size = 8\<rparr>"] ready fl
    by auto
  have pg: "virt_to_head_page (demo_env None) demo_addr = 0xffffea0000004000"
    "page_address (demo_env None) 0xffffea0000004000 = demo_addr"
    "compound_order (demo_env None) 0xffffea0000004000 = 0"
    by (simp_all add: demo_env_def demo_addr_def)
  have ct: "kmsan_metadata_is_contiguous (demo_env None) demo_state demo_addr PAGE_SIZE = Inr True"
    by (simp add: kmsan_metadata_is_contiguous_def ALIGN_DOWN_def PAGE_SIZE_def demo_addr_def)
  obtain st2 where d1: "kmsan_kfree_large (demo_env None) demo_state demo_addr = Inr st2"
    and d2: "\<forall>k<PAGE_SIZE. shadow_mem st2 (0xffff888000200000 + k) = 0xFF"
    using T [where st = demo_state and s = "\<lparr>ctor = 0, flags = 0, object_size = 8\<rparr>"]
      ready pg ct
    by auto
  have "shadow_mem st1 (0xffff888000200000 + 7) = 0xFF"
    using c2 [rule_format, of 7] by simp
  moreover have "shadow_mem st2 (0xffff888000200000 + 0xfff) = 0xFF"
    using d2 [rule_format, of "0xfff"] by (simp add: PAGE_SIZE_def)
  moreover have "shadow_mem demo_state 0xffff888000200007 = 0"
    by (simp add: demo_state_def)
  ultimately show ?thesis
    using a b c1 d1 by auto
qed

section \<open>Origins written by the propagation engine\<close>

text \<open>
  C4, as stated, fails when source and destination are aligned differently. Byte 3 of
  the source granule at \<open>demo_addr\<close> is poisoned, and 4 bytes are moved to
  \<open>demo_addr + 0x101\<close>. The destination granule at \<open>demo_addr + 0x100\<close> then has four
  shadow bytes that are all zero (the poisoned byte landed in the next granule), and its
  origin slot holds a nonzero handle, written by this operation.
\<close>

theorem memmove_misaligned_origin_on_clean_granule:
  "(case kmsan_internal_poison_memory (demo_env None) demo_state (demo_addr + 3) 1 0xcc0 0 of
      Inl e \<Rightarrow> False
    | Inr st1 \<Rightarrow>
        origin_mem st1 0xffff888000300100 = 0 \<and>
        (case kmsan_memmove_metadata (demo_env None) st1 (demo_addr + 0x101) demo_addr 4 of
           Inl e \<Rightarrow> False
         | Inr st2 \<Rightarrow>
             kmsan_get_metadata (demo_env None) st2 (demo_addr + 0x101) False
               = Inr 0xffff888000200101 \<and>
             kmsan_get_metadata (demo_env None) st2 (demo_addr + 0x101) True
               = Inr 0xffff888000300100 \<and>
             shadow_mem st2 0xffff888000200100 = 0 \<and>
             shadow_mem st2 0xffff888000200101 = 0 \<and>
             shadow_mem st2 0xffff888000200102 = 0 \<and>
             shadow_mem st2 0xffff888000200103 = 0 \<and>
             origin_mem st2 0xffff888000300100 \<noteq> 0))"
  by code_simp

text \<open>
  Granule-aligned addresses: the alignment macros leave them as they are, and a range of
  \<open>n\<close> bytes touches \<open>n div 4\<close> origin slots.
\<close>

lemma aligned_ALIGN_DOWN:
  assumes "(x :: u64) mod 4 = 0"
  shows "ALIGN_DOWN x KMSAN_ORIGIN_SIZE = x"
proof -
  have z: "x AND 3 = 0"
    using assms by (simp add: mod4_mask)
  have "x AND NOT 3 = (x AND NOT 3) OR (x AND 3)"
    using z by simp
  also have "\<dots> = x AND (NOT 3 OR 3)"
    by (simp only: bit.conj_disj_distrib)
  also have "\<dots> = x"
    by simp
  finally show ?thesis
    by (simp add: ALIGN_DOWN_def KMSAN_ORIGIN_SIZE_def)
qed

lemma aligned_ALIGN:
  assumes "(x :: u64) mod 4 = 0"
  shows "ALIGN x KMSAN_ORIGIN_SIZE = x"
proof -
  have z: "x AND 3 = 0"
    using assms by (simp add: mod4_mask)
  have "x + 3 = x OR 3"
  proof (rule disjunctive_add)
    fix k
    have "\<not> bit (x AND 3) k"
      using z by simp
    then show "\<not> bit x k \<or> \<not> bit (3 :: u64) k"
      by (simp add: bit_and_iff)
  qed
  then have "(x + 3) AND NOT 3 = (x AND NOT 3) OR (3 AND NOT 3)"
    by (simp only: bit.conj_disj_distrib2)
  also have "\<dots> = x AND NOT 3"
    by simp
  also have "\<dots> = x"
    using aligned_ALIGN_DOWN [OF assms] by (simp add: ALIGN_DOWN_def KMSAN_ORIGIN_SIZE_def)
  finally show ?thesis
    by (simp add: ALIGN_def KMSAN_ORIGIN_SIZE_def)
qed

lemma aligned_sum:
  assumes "(x :: u64) mod 4 = 0" and "(y :: u64) mod 4 = 0"
  shows "(x + y) mod 4 = 0"
proof -
  have "unat (x mod 4) = 0" "unat (y mod 4) = 0"
    using assms by simp_all
  then have x: "unat x mod 4 = 0" "unat y mod 4 = 0"
    by (simp_all add: unat_mod)
  have "unat (x + y) = (unat x + unat y) mod 2 ^ 64"
    by (simp add: unat_word_ariths)
  then have "unat (x + y) mod 4 = (unat x + unat y) mod 2 ^ 64 mod 4"
    by simp
  also have "\<dots> = (unat x + unat y) mod 4"
    by (rule mod_mod_cancel) simp
  also have "\<dots> = 0"
    using x by presburger
  finally have "unat ((x + y) mod 4) = 0"
    by (simp add: unat_mod)
  then show ?thesis
    by (simp add: word_unat_eq_iff)
qed

lemma origin_slots_aligned:
  assumes "p mod 4 = 0" and "n mod 4 = 0" and "unat n < 2 ^ 31"
  shows "origin_slots p n = int (unat n div 4)"
proof -
  have "ALIGN (p + n) KMSAN_ORIGIN_SIZE - ALIGN_DOWN p KMSAN_ORIGIN_SIZE = n"
    using aligned_ALIGN [OF aligned_sum [OF assms(1,2)]] aligned_ALIGN_DOWN [OF assms(1)]
    by simp
  moreover have "unat (n div 4) = unat n div 4"
    by (simp add: unat_div)
  moreover have "unat (n div 4) < 2 ^ 31"
    using assms(3) by (simp add: unat_div)
  ultimately show ?thesis
    using to_int_small [of "n div 4"]
    by (simp add: origin_slots_def KMSAN_ORIGIN_SIZE_def)
qed

lemma uint_slot_offset:
  assumes "0 \<le> a" "a < 2 ^ 31"
  shows "uint (word_of_int (4 * a) :: u64) = 4 * a"
proof -
  have "uint (word_of_int (4 * a) :: u64) = (4 * a) mod 2 ^ LENGTH(64)"
    by (rule uint_word_of_int)
  also have "\<dots> = 4 * a"
    using assms by simp
  finally show ?thesis .
qed

lemma slot_offset_inj:
  assumes "0 \<le> a" "a < 2 ^ 31" "0 \<le> b" "b < 2 ^ 31"
    and "(od :: u64) + word_of_int (4 * a) = od + word_of_int (4 * b)"
  shows "a = b"
proof -
  have "(word_of_int (4 * a) :: u64) = word_of_int (4 * b)"
    using assms(5) by (simp only: add_left_cancel)
  then have "uint (word_of_int (4 * a) :: u64) = uint (word_of_int (4 * b) :: u64)"
    by (rule arg_cong)
  then have "4 * a = 4 * b"
    unfolding uint_slot_offset [OF assms(1,2)] uint_slot_offset [OF assms(3,4)] .
  then show ?thesis
    by simp
qed

text \<open>
  The origin loop leaves the shadow memory alone and writes only the destination slots it
  visits, each of them once.
\<close>

lemma chain_origin_frame:
  assumes "kmsan_internal_chain_origin E st h = (c, st1)"
  shows "shadow_mem st1 = shadow_mem st" and "origin_mem st1 = origin_mem st"
  using assms
  by (auto simp: kmsan_internal_chain_origin_def kmsan_save_stack_with_flags_def Let_def
      split: if_splits prod.splits)

lemma memmove_origin_step_frame:
  assumes "memmove_origin_step E src n src_slots asrc os od i l = Inr l'"
  shows "shadow_mem (mm_state l') = shadow_mem (mm_state l)"
    and "q \<noteq> od + word_of_int (4 * i) \<Longrightarrow>
           origin_mem (mm_state l') q = origin_mem (mm_state l) q"
    and "origin_mem (mm_state l') (od + word_of_int (4 * i))
           = (if slot_shadow (shadow_mem (mm_state l)) asrc src n src_slots i \<noteq> 0
              then new_origin l' else 0)"
  using assms chain_origin_frame [of E "mm_state l"]
  by (auto simp: memmove_origin_step_def Let_def split: if_splits prod.splits)

lemma memmove_origin_step_runs:
  assumes "0 \<le> i"
  shows "\<exists>l'. memmove_origin_step E src n src_slots asrc os od i l = Inr l'"
  using assms by (simp add: memmove_origin_step_def Let_def)

lemma memmove_origin_loop_frame:
  assumes "memmove_origin_loop E src n src_slots asrc os od slots iter step i l = Inr l'"
  shows "shadow_mem (mm_state l') = shadow_mem (mm_state l) \<and>
         ((\<forall>t. step \<le> t \<and> t < slots \<longrightarrow> q \<noteq> od + word_of_int (4 * (i + (t - step) * iter)))
            \<longrightarrow> origin_mem (mm_state l') q = origin_mem (mm_state l) q)"
  using assms
proof (induction "nat (slots - step)" arbitrary: step i l)
  case 0
  then show ?case
    by (simp add: memmove_origin_loop.simps [of _ _ _ _ _ _ _ slots iter step])
next
  case (Suc k)
  then have lt: "step < slots"
    by simp
  obtain l1 where s1: "memmove_origin_step E src n src_slots asrc os od i l = Inr l1"
    and rest: "memmove_origin_loop E src n src_slots asrc os od slots iter (step + 1)
                 (i + iter) l1 = Inr l'"
    using Suc.prems lt
    by (simp add: memmove_origin_loop.simps [of _ _ _ _ _ _ _ slots iter step]
        split: sum.splits)
  have k: "k = nat (slots - (step + 1))"
    using Suc.hyps(2) by simp
  note ih = Suc.hyps(1) [OF k rest]
  note f = memmove_origin_step_frame [OF s1]
  show ?case
  proof (intro conjI impI)
    show "shadow_mem (mm_state l') = shadow_mem (mm_state l)"
      using ih f(1) by simp
  next
    assume far: "\<forall>t. step \<le> t \<and> t < slots \<longrightarrow>
                   q \<noteq> od + word_of_int (4 * (i + (t - step) * iter))"
    have "q \<noteq> od + word_of_int (4 * i)"
      using far [rule_format, of step] lt by simp
    then have a: "origin_mem (mm_state l1) q = origin_mem (mm_state l) q"
      by (rule f(2))
    have "\<forall>t. step + 1 \<le> t \<and> t < slots \<longrightarrow>
            q \<noteq> od + word_of_int (4 * (i + iter + (t - (step + 1)) * iter))"
    proof (intro allI impI)
      fix t
      assume t: "step + 1 \<le> t \<and> t < slots"
      have e: "i + iter + (t - (step + 1)) * iter = i + (t - step) * iter"
        by (simp add: algebra_simps)
      have "step \<le> t \<and> t < slots"
        using t by simp
      then have "q \<noteq> od + word_of_int (4 * (i + (t - step) * iter))"
        by (rule far [rule_format])
      then show "q \<noteq> od + word_of_int (4 * (i + iter + (t - (step + 1)) * iter))"
        unfolding e .
    qed
    then have "origin_mem (mm_state l') q = origin_mem (mm_state l1) q"
      using ih by blast
    then show "origin_mem (mm_state l') q = origin_mem (mm_state l) q"
      using a by simp
  qed
qed

lemma memmove_origin_loop_runs:
  assumes "\<forall>t. step \<le> t \<and> t < slots \<longrightarrow> 0 \<le> i + (t - step) * iter"
  shows "\<exists>l'. memmove_origin_loop E src n src_slots asrc os od slots iter step i l = Inr l'"
  using assms
proof (induction "nat (slots - step)" arbitrary: step i l)
  case 0
  then show ?case
    by (simp add: memmove_origin_loop.simps [of _ _ _ _ _ _ _ slots iter step])
next
  case (Suc k)
  then have lt: "step < slots"
    by simp
  have "0 \<le> i"
    using Suc.prems [rule_format, of step] lt by simp
  then obtain l1 where s1: "memmove_origin_step E src n src_slots asrc os od i l = Inr l1"
    using memmove_origin_step_runs by blast
  have k: "k = nat (slots - (step + 1))"
    using Suc.hyps(2) by simp
  have "\<forall>t. step + 1 \<le> t \<and> t < slots \<longrightarrow> 0 \<le> i + iter + (t - (step + 1)) * iter"
  proof (intro allI impI)
    fix t
    assume t: "step + 1 \<le> t \<and> t < slots"
    have "i + iter + (t - (step + 1)) * iter = i + (t - step) * iter"
      by (simp add: algebra_simps)
    then show "0 \<le> i + iter + (t - (step + 1)) * iter"
      using Suc.prems [rule_format, of t] t by simp
  qed
  then have "\<exists>l'. memmove_origin_loop E src n src_slots asrc os od slots iter (step + 1)
                    (i + iter) l1 = Inr l'"
    by (rule Suc.hyps(1) [OF k])
  then show ?case
    using s1 lt by (simp add: memmove_origin_loop.simps [of _ _ _ _ _ _ _ slots iter step])
qed

lemma memmove_origin_loop_zero:
  assumes run: "memmove_origin_loop E src n src_slots asrc os od slots iter step i l = Inr l'"
    and rng: "\<forall>t. step \<le> t \<and> t < slots \<longrightarrow>
                0 \<le> i + (t - step) * iter \<and> i + (t - step) * iter < 2 ^ 31"
    and iter: "iter = 1 \<or> iter = - 1"
    and t0: "step \<le> t0" "t0 < slots"
    and z: "slot_shadow (shadow_mem (mm_state l)) asrc src n src_slots
              (i + (t0 - step) * iter) = 0"
  shows "origin_mem (mm_state l') (od + word_of_int (4 * (i + (t0 - step) * iter))) = 0"
  using run rng t0 z
proof (induction "nat (slots - step)" arbitrary: step i l)
  case 0
  then show ?case
    by simp
next
  case (Suc k)
  then have lt: "step < slots"
    by simp
  obtain l1 where s1: "memmove_origin_step E src n src_slots asrc os od i l = Inr l1"
    and rest: "memmove_origin_loop E src n src_slots asrc os od slots iter (step + 1)
                 (i + iter) l1 = Inr l'"
    using Suc.prems(1) lt
    by (simp add: memmove_origin_loop.simps [of _ _ _ _ _ _ _ slots iter step]
        split: sum.splits)
  have k: "k = nat (slots - (step + 1))"
    using Suc.hyps(2) by simp
  note f = memmove_origin_step_frame [OF s1]
  have e: "i + iter + (t - (step + 1)) * iter = i + (t - step) * iter" for t
    by (simp add: algebra_simps)
  have rng': "\<forall>t. step + 1 \<le> t \<and> t < slots \<longrightarrow>
                0 \<le> i + iter + (t - (step + 1)) * iter \<and>
                i + iter + (t - (step + 1)) * iter < 2 ^ 31"
  proof (intro allI impI)
    fix t
    assume "step + 1 \<le> t \<and> t < slots"
    then have "step \<le> t \<and> t < slots"
      by simp
    then have "0 \<le> i + (t - step) * iter \<and> i + (t - step) * iter < 2 ^ 31"
      by (rule Suc.prems(2) [rule_format])
    then show "0 \<le> i + iter + (t - (step + 1)) * iter \<and>
               i + iter + (t - (step + 1)) * iter < 2 ^ 31"
      unfolding e .
  qed
  show ?case
  proof (cases "t0 = step")
    case True
    have i: "0 \<le> i" "i < 2 ^ 31"
      using Suc.prems(2) [rule_format, of step] lt by simp_all
    have "slot_shadow (shadow_mem (mm_state l)) asrc src n src_slots i = 0"
      using Suc.prems(5) True by simp
    then have w: "origin_mem (mm_state l1) (od + word_of_int (4 * i)) = 0"
      using f(3) by simp
    have "\<forall>t. step + 1 \<le> t \<and> t < slots \<longrightarrow>
            od + word_of_int (4 * i)
              \<noteq> od + word_of_int (4 * (i + iter + (t - (step + 1)) * iter))"
    proof (intro allI impI notI)
      fix t
      assume t: "step + 1 \<le> t \<and> t < slots"
      assume eq: "od + word_of_int (4 * i)
                    = od + word_of_int (4 * (i + iter + (t - (step + 1)) * iter))"
      have r: "0 \<le> i + iter + (t - (step + 1)) * iter"
        "i + iter + (t - (step + 1)) * iter < 2 ^ 31"
        using rng' [rule_format, OF t] by simp_all
      have "i = i + iter + (t - (step + 1)) * iter"
        using i r eq by (rule slot_offset_inj)
      then have "(t - step) * iter = 0"
        unfolding e by simp
      then show False
        using t iter by auto
    qed
    then have "origin_mem (mm_state l') (od + word_of_int (4 * i))
                 = origin_mem (mm_state l1) (od + word_of_int (4 * i))"
      using memmove_origin_loop_frame [OF rest, of "od + word_of_int (4 * i)"] by blast
    then show ?thesis
      using w True by simp
  next
    case False
    then have t0': "step + 1 \<le> t0"
      using Suc.prems(3) by simp
    have "slot_shadow (shadow_mem (mm_state l1)) asrc src n src_slots
            (i + iter + (t0 - (step + 1)) * iter) = 0"
      unfolding e f(1) by (rule Suc.prems(5))
    then have "origin_mem (mm_state l')
                 (od + word_of_int (4 * (i + iter + (t0 - (step + 1)) * iter))) = 0"
      by (rule Suc.hyps(1) [OF k rest rng' t0' Suc.prems(4)])
    then show ?thesis
      unfolding e .
  qed
qed

lemma load_u32_zero:
  assumes "m p = 0" "m (p + 1) = 0" "m (p + 2) = 0" "m (p + 3) = 0"
  shows "load_u32 m p = 0"
  using assms by (simp add: load_u32_def)

lemma slot_shadow_aligned:
  assumes "src mod 4 = 0" and "(src + n) mod 4 = 0"
  shows "slot_shadow sm asrc src n src_slots i = load_u32 sm (asrc + word_of_int (4 * i))"
  using assms by (simp add: slot_shadow_def Let_def KMSAN_ORIGIN_SIZE_def)

lemma word_of_nat_less:
  assumes "k < unat (n :: u64)"
  shows "(word_of_nat k :: u64) < n"
proof -
  have "unat n < 2 ^ 64"
    using unsigned_less [where ?'a = nat and w = n] by simp
  then have "k < 2 ^ 64"
    using assms by simp
  then have "unat (word_of_nat k :: u64) = k"
    by (simp add: unat_of_nat take_bit_nat_eq_self)
  then show ?thesis
    using assms by (simp add: word_less_nat_alt)
qed

lemma memmove_aligned_keeps_clean_granules:
  assumes al: "src mod 4 = 0" "dst mod 4 = 0" "n mod 4 = 0"
    and n: "0 < n" "unat n < 2 ^ 31"
    and d: "kmsan_get_metadata E st dst False = Inr sd" "sd \<noteq> 0"
    and s: "kmsan_get_metadata E st src False = Inr ss" "ss \<noteq> 0" "ss mod 4 = 0"
    and c: "kmsan_metadata_is_contiguous E st dst n = Inr True"
      "kmsan_metadata_is_contiguous E st src n = Inr True"
    and o: "kmsan_get_metadata E st dst True = Inr od" "od \<noteq> 0"
      "kmsan_get_metadata E st src True = Inr os" "os \<noteq> 0"
    and apart: "\<forall>k<n. \<not> (ss + k - sd < n)"
  shows "\<exists>st'. kmsan_memmove_metadata E st dst src n = Inr st' \<and>
           (\<forall>k<n. shadow_mem st' (sd + k) = shadow_mem st (ss + k)) \<and>
           (\<forall>g < unat n div 4.
              (\<forall>b<4. shadow_mem st' (sd + word_of_nat (4 * g + b)) = 0) \<longrightarrow>
              origin_mem st' (od + word_of_nat (4 * g)) = 0)"
proof -
  define m where "m = int (unat n div 4)"
  define st1 where "st1 = st\<lparr>shadow_mem := memmove (shadow_mem st) sd ss n\<rparr>"
  define l0 where "l0 = \<lparr>old_origin = 0, new_origin = 0, mm_state = st1\<rparr>"
  define i0 where "i0 = (if src < dst then m - 1 else 0)"
  define iter :: int where "iter = (if src < dst then - 1 else 1)"
  have "unat (n mod 4) = 0"
    using al(3) by simp
  then have n4: "unat n mod 4 = 0"
    by (simp add: unat_mod)
  have "0 < unat n"
    using n(1) by (simp add: word_less_nat_alt)
  then have m1: "1 \<le> m"
    using n4 unfolding m_def by presburger
  have m31: "m < 2 ^ 31"
    using n(2) unfolding m_def by simp
  have sl: "origin_slots src n = m" "origin_slots dst n = m"
    using origin_slots_aligned [OF al(1) al(3) n(2)] origin_slots_aligned [OF al(2) al(3) n(2)]
    by (simp_all add: m_def)
  have asrc: "ALIGN_DOWN ss KMSAN_ORIGIN_SIZE = ss"
    using s(3) by (rule aligned_ALIGN_DOWN)
  have it: "iter = 1 \<or> iter = - 1"
    by (simp add: iter_def)
  have rng: "\<forall>t. 0 \<le> t \<and> t < m \<longrightarrow> 0 \<le> i0 + (t - 0) * iter \<and> i0 + (t - 0) * iter < 2 ^ 31"
    using m31 by (auto simp: i0_def iter_def)
  then have "\<forall>t. 0 \<le> t \<and> t < m \<longrightarrow> 0 \<le> i0 + (t - 0) * iter"
    by blast
  then obtain l' where run: "memmove_origin_loop E src n m ss os od m iter 0 i0 l0 = Inr l'"
    using memmove_origin_loop_runs by blast
  have o1: "kmsan_get_metadata E st1 dst True = Inr od"
    "kmsan_get_metadata E st1 src True = Inr os"
    using o by (simp_all add: st1_def)
  have res: "kmsan_memmove_metadata E st dst src n = Inr (mm_state l')"
    using run d s(1,2) c o(2,4) m1
    by (simp add: kmsan_memmove_metadata_def Let_def sl asrc st1_def [symmetric] o1
        l0_def [symmetric] i0_def iter_def)
  have sh: "shadow_mem (mm_state l') = memmove (shadow_mem st) sd ss n"
    using memmove_origin_loop_frame [OF run] by (simp add: l0_def st1_def)
  have copied: "shadow_mem (mm_state l') (sd + k) = shadow_mem st (ss + k)" if "k < n" for k
    using that by (simp add: sh memmove_def)
  have kept: "shadow_mem (mm_state l') (ss + k) = shadow_mem st (ss + k)" if "k < n" for k
    using that apart by (simp add: sh memmove_def)
  have slots: "origin_mem (mm_state l') (od + word_of_nat (4 * g)) = 0"
    if g: "g < unat n div 4"
      and clean: "\<forall>b<4. shadow_mem (mm_state l') (sd + word_of_nat (4 * g + b)) = 0" for g
  proof -
    define t0 where "t0 = (if src < dst then m - 1 - int g else int g)"
    have gm: "int g < m"
      using g by (simp add: m_def)
    have idx: "i0 + (t0 - 0) * iter = int g"
      by (simp add: i0_def t0_def iter_def)
    have t0: "0 \<le> t0" "t0 < m"
      using gm by (simp_all add: t0_def)
    have byte: "shadow_mem (mm_state l') (ss + word_of_nat (4 * g + b)) = 0" if "b < 4" for b
    proof -
      have "4 * g + b < unat n"
        using g that by simp
      then have lt: "(word_of_nat (4 * g + b) :: u64) < n"
        by (rule word_of_nat_less)
      show ?thesis
        using kept [OF lt] copied [OF lt] clean that by simp
    qed
    have "load_u32 (shadow_mem (mm_state l')) (ss + word_of_int (4 * int g)) = 0"
      using byte [of 0] byte [of 1] byte [of 2] byte [of 3]
      by (intro load_u32_zero) (simp_all add: add_ac)
    then have "slot_shadow (shadow_mem (mm_state l0)) ss src n m (i0 + (t0 - 0) * iter) = 0"
      unfolding idx
      using sh by (simp add: slot_shadow_aligned [OF al(1) aligned_sum [OF al(1) al(3)]]
          l0_def st1_def)
    then have "origin_mem (mm_state l') (od + word_of_int (4 * (i0 + (t0 - 0) * iter))) = 0"
      by (rule memmove_origin_loop_zero [OF run rng it t0])
    then show ?thesis
      unfolding idx by simp
  qed
  show ?thesis
    using res copied slots by blast
qed

text \<open>
  C4, amended. Each iteration of the origin loop writes, into destination slot \<open>i\<close>, the
  (possibly chained) handle \<^verbatim>\<open>new_origin\<close> when the shadow word of \<^emph>\<open>source\<close> slot \<open>i\<close>, read
  after the shadow copy and masked at the two edges, is nonzero, and 0 otherwise. When
  \<open>src\<close>, \<open>dst\<close> and \<open>n\<close> are multiples of the granule and no source shadow byte lies in
  the destination's shadow range, that word is the shadow of destination granule \<open>i\<close>:
  \<^verbatim>\<open>kmsan_memmove_metadata\<close> then returns, the \<open>n\<close> shadow bytes are copied, and every
  destination granule whose four shadow bytes are zero afterwards has origin 0 (I2).
\<close>

theorem memmove_origin_follows_source_shadow:
  "(0 \<le> i \<longrightarrow>
      (\<exists>l'. memmove_origin_step E p len src_slots asrc origin_src origin_dst i l = Inr l' \<and>
            origin_mem (mm_state l') (origin_dst + word_of_int (4 * i))
              = (if slot_shadow (shadow_mem (mm_state l)) asrc p len src_slots i \<noteq> 0
                 then new_origin l' else 0))) \<and>
   (src mod 4 = 0 \<and> dst mod 4 = 0 \<and> n mod 4 = 0 \<and> 0 < n \<and> unat n < 2 ^ 31 \<and>
    kmsan_get_metadata E st dst False = Inr sd \<and> sd \<noteq> 0 \<and>
    kmsan_get_metadata E st src False = Inr ss \<and> ss \<noteq> 0 \<and> ss mod 4 = 0 \<and>
    kmsan_metadata_is_contiguous E st dst n = Inr True \<and>
    kmsan_metadata_is_contiguous E st src n = Inr True \<and>
    kmsan_get_metadata E st dst True = Inr od \<and> od \<noteq> 0 \<and>
    kmsan_get_metadata E st src True = Inr os \<and> os \<noteq> 0 \<and>
    (\<forall>k<n. \<not> (ss + k - sd < n)) \<longrightarrow>
      (\<exists>st'. kmsan_memmove_metadata E st dst src n = Inr st' \<and>
             (\<forall>k<n. shadow_mem st' (sd + k) = shadow_mem st (ss + k)) \<and>
             (\<forall>g < unat n div 4.
                (\<forall>b<4. shadow_mem st' (sd + word_of_nat (4 * g + b)) = 0) \<longrightarrow>
                origin_mem st' (od + word_of_nat (4 * g)) = 0)))"
proof (intro conjI impI)
  assume "0 \<le> i"
  then obtain l' where
    s: "memmove_origin_step E p len src_slots asrc origin_src origin_dst i l = Inr l'"
    using memmove_origin_step_runs by blast
  then show "\<exists>l'. memmove_origin_step E p len src_slots asrc origin_src origin_dst i l = Inr l' \<and>
            origin_mem (mm_state l') (origin_dst + word_of_int (4 * i))
              = (if slot_shadow (shadow_mem (mm_state l)) asrc p len src_slots i \<noteq> 0
                 then new_origin l' else 0)"
    using memmove_origin_step_frame(3) [OF s] by blast
next
  assume "src mod 4 = 0 \<and> dst mod 4 = 0 \<and> n mod 4 = 0 \<and> 0 < n \<and> unat n < 2 ^ 31 \<and>
    kmsan_get_metadata E st dst False = Inr sd \<and> sd \<noteq> 0 \<and>
    kmsan_get_metadata E st src False = Inr ss \<and> ss \<noteq> 0 \<and> ss mod 4 = 0 \<and>
    kmsan_metadata_is_contiguous E st dst n = Inr True \<and>
    kmsan_metadata_is_contiguous E st src n = Inr True \<and>
    kmsan_get_metadata E st dst True = Inr od \<and> od \<noteq> 0 \<and>
    kmsan_get_metadata E st src True = Inr os \<and> os \<noteq> 0 \<and>
    (\<forall>k<n. \<not> (ss + k - sd < n))"
  then show "\<exists>st'. kmsan_memmove_metadata E st dst src n = Inr st' \<and>
             (\<forall>k<n. shadow_mem st' (sd + k) = shadow_mem st (ss + k)) \<and>
             (\<forall>g < unat n div 4.
                (\<forall>b<4. shadow_mem st' (sd + word_of_nat (4 * g + b)) = 0) \<longrightarrow>
                origin_mem st' (od + word_of_nat (4 * g)) = 0)"
    by (intro memmove_aligned_keeps_clean_granules [where os = os]) simp_all
qed

text \<open>
  In this state the first granule of the tracked page is poisoned, with origin
  \<open>0x04000000\<close>, the second granule is clean, and the origin slot at offset \<open>0x104\<close> holds
  a stale handle.
\<close>

definition demo_one_granule :: "(u64 list \<times> u32) list kmsan_state" where
  "demo_one_granule = demo_state\<lparr>
     shadow_mem := memset (\<lambda>p. 0) 0xffff888000200000 0xFF 4,
     origin_mem := (\<lambda>p. 0)(0xffff888000300000 := 0x04000000, 0xffff888000300104 := 0x0C000000)\<rparr>"

lemma demo_one_granule_meta [simp]:
  "kmsan_get_metadata E demo_one_granule = kmsan_get_metadata E demo_state"
  "kmsan_metadata_is_contiguous E demo_one_granule = kmsan_metadata_is_contiguous E demo_state"
  by (simp_all add: demo_one_granule_def)

lemma demo_metadata_0x100:
  "kmsan_get_metadata (demo_env cap) demo_state (demo_addr + 0x100) False
     = Inr 0xffff888000200100"
  "kmsan_get_metadata (demo_env cap) demo_state (demo_addr + 0x100) True
     = Inr 0xffff888000300100"
  "kmsan_metadata_is_contiguous (demo_env cap) demo_state (demo_addr + 0x100) 8 = Inr True"
  by (simp_all add: demo_resolver_defs kmsan_metadata_is_contiguous_def ALIGN_DOWN_def)

theorem memmove_origin_follows_source_shadow_witness:
  "(\<exists>l'. memmove_origin_step (demo_env None) demo_addr 8 2 0xffff888000200000
            0xffff888000300000 0xffff888000300100 1
            \<lparr>old_origin = 0, new_origin = 0, mm_state = demo_one_granule\<rparr> = Inr l' \<and>
          origin_mem (mm_state l') 0xffff888000300104 = 0) \<and>
   (\<exists>st'. kmsan_memmove_metadata (demo_env None) demo_one_granule (demo_addr + 0x100)
             demo_addr 8 = Inr st' \<and>
           origin_mem demo_one_granule 0xffff888000300104 = 0x0C000000 \<and>
           shadow_mem st' 0xffff888000200100 = 0xFF \<and>
           shadow_mem st' 0xffff888000200104 = 0 \<and>
           origin_mem st' 0xffff888000300104 = 0)"
proof -
  let ?l = "\<lparr>old_origin = 0, new_origin = 0, mm_state = demo_one_granule\<rparr>"
  note T = memmove_origin_follows_source_shadow
      [where E = "demo_env None" and st = demo_one_granule and src = demo_addr
         and dst = "demo_addr + 0x100" and n = 8 and sd = "0xffff888000200100"
         and ss = "0xffff888000200000" and od = "0xffff888000300100"
         and os = "0xffff888000300000" and p = demo_addr and len = 8 and src_slots = 2
         and asrc = "0xffff888000200000" and origin_src = "0xffff888000300000"
         and origin_dst = "0xffff888000300100" and i = 1 and l = ?l]
  have z: "slot_shadow (shadow_mem demo_one_granule) 0xffff888000200000 demo_addr 8 2 1 = 0"
    by (simp add: slot_shadow_def load_u32_def demo_one_granule_def memset_def demo_addr_def
        KMSAN_ORIGIN_SIZE_def)
  have a: "\<exists>l'. memmove_origin_step (demo_env None) demo_addr 8 2 0xffff888000200000
            0xffff888000300000 0xffff888000300100 1 ?l = Inr l' \<and>
          origin_mem (mm_state l') 0xffff888000300104 = 0"
    using T [THEN conjunct1] z by simp
  have apart: "\<forall>k<8. \<not> ((0xffff888000200000 :: u64) + k - 0xffff888000200100 < 8)"
  proof (intro allI impI)
    fix k :: u64
    assume "k < 8"
    then have "k = 0 \<or> k = 1 \<or> k = 2 \<or> k = 3 \<or> k = 4 \<or> k = 5 \<or> k = 6 \<or> k = 7"
      by (rule u64_less_8_cases)
    then show "\<not> ((0xffff888000200000 :: u64) + k - 0xffff888000200100 < 8)"
      by (elim disjE) simp_all
  qed
  have al: "(demo_addr + 0x100) mod 4 = 0"
    by (simp add: demo_addr_def)
  obtain st' where
    run: "kmsan_memmove_metadata (demo_env None) demo_one_granule (demo_addr + 0x100)
            demo_addr 8 = Inr st'"
    and copied: "\<forall>k<8. shadow_mem st' (0xffff888000200100 + k)
                   = shadow_mem demo_one_granule (0xffff888000200000 + k)"
    and clean: "\<forall>g<2. (\<forall>b<4. shadow_mem st' (0xffff888000200100 + word_of_nat (4 * g + b)) = 0)
                  \<longrightarrow> origin_mem st' (0xffff888000300100 + word_of_nat (4 * g)) = 0"
    using T [THEN conjunct2] apart al demo_metadata_0x100 [of None]
    by auto
  have c0: "shadow_mem st' 0xffff888000200100 = 0xFF"
    using copied [rule_format, of 0] by (simp add: demo_one_granule_def memset_def)
  have c4: "shadow_mem st' (0xffff888000200100 + word_of_nat (4 * 1 + b)) = 0" if "b < 4" for b
  proof -
    have "b = 0 \<or> b = 1 \<or> b = 2 \<or> b = 3"
      using that by arith
    then show ?thesis
      using copied [rule_format, of 4] copied [rule_format, of 5] copied [rule_format, of 6]
        copied [rule_format, of 7]
      by (elim disjE) (simp_all add: demo_one_granule_def memset_def)
  qed
  have "origin_mem st' (0xffff888000300100 + word_of_nat (4 * 1)) = 0"
    using clean [rule_format, of 1] c4 by simp
  then have o4: "origin_mem st' 0xffff888000300104 = 0"
    by simp
  have "shadow_mem st' 0xffff888000200104 = 0"
    using c4 [of 0] by simp
  moreover have "origin_mem demo_one_granule 0xffff888000300104 = 0x0C000000"
    by (simp add: demo_one_granule_def)
  ultimately show ?thesis
    using a run c0 o4 by blast
qed

section \<open>Propagation when chaining fails\<close>











end
